theory Spec2Isabelle
  imports Main "HOL-Library.Word" "HOL-Library.Multiset"
begin

section \<open>The comparison pass of tree-ssa-cmp.cc\<close>

text \<open>
  The pass rewrites a signed comparison \<open>(x - y) CMP 0\<close> into \<open>x CMP y\<close> and
  \<open>0 CMP (x - y)\<close> into \<open>y CMP x\<close> on GIMPLE in SSA form. The development below
  embeds the functions of \<^verbatim>\<open>gcc/tree-ssa-cmp.cc\<close>: \<^verbatim>\<open>is_signed_integer\<close>,
  \<^verbatim>\<open>prop_integer_zero_or_minus_expr\<close>, \<^verbatim>\<open>optimize_signed_comparison\<close>,
  \<^verbatim>\<open>pass_cmp::gate\<close>, \<^verbatim>\<open>cmp_dom_walker::after_dom_children\<close> and
  \<^verbatim>\<open>pass_cmp::execute\<close>, over a small model of the GCC intermediate
  representation they read and write.
\<close>

subsection \<open>Tree codes\<close>

text \<open>
  Modelled from the spec: \<^verbatim>\<open>enum tree_code\<close> is generated from \<^verbatim>\<open>tree.def\<close>, which
  lies outside \<^verbatim>\<open>tree-ssa-cmp.cc\<close>. The enumerators listed are the ones the pass and its
  inputs mention, in the relative order of \<^verbatim>\<open>tree.def\<close>; the four ordered relational
  operators \<^verbatim>\<open>LT_EXPR\<close>, \<^verbatim>\<open>LE_EXPR\<close>, \<^verbatim>\<open>GT_EXPR\<close>, \<^verbatim>\<open>GE_EXPR\<close> are
  consecutive (the comparison's operator is one of the four ordered relational operators
  exactly when it passes the code-range check).
\<close>

datatype tree_code =
    ERROR_MARK
  | ENUMERAL_TYPE | BOOLEAN_TYPE | INTEGER_TYPE | REAL_TYPE | POINTER_TYPE
  | INTEGER_CST | REAL_CST
  | VAR_DECL | PARM_DECL
  | PLUS_EXPR | MINUS_EXPR | MULT_EXPR | NEGATE_EXPR
  | LT_EXPR | LE_EXPR | GT_EXPR | GE_EXPR | LTGT_EXPR | EQ_EXPR | NE_EXPR
  | UNORDERED_EXPR | ORDERED_EXPR | UNLT_EXPR | UNLE_EXPR | UNGT_EXPR | UNGE_EXPR | UNEQ_EXPR
  | SSA_NAME

text \<open>The position of an enumerator, which is what \<^verbatim>\<open><\<close> on \<^verbatim>\<open>enum tree_code\<close> compares.\<close>

fun tree_code_index :: "tree_code \<Rightarrow> nat" where
  "tree_code_index ERROR_MARK = 0"
| "tree_code_index ENUMERAL_TYPE = 1"
| "tree_code_index BOOLEAN_TYPE = 2"
| "tree_code_index INTEGER_TYPE = 3"
| "tree_code_index REAL_TYPE = 4"
| "tree_code_index POINTER_TYPE = 5"
| "tree_code_index INTEGER_CST = 6"
| "tree_code_index REAL_CST = 7"
| "tree_code_index VAR_DECL = 8"
| "tree_code_index PARM_DECL = 9"
| "tree_code_index PLUS_EXPR = 10"
| "tree_code_index MINUS_EXPR = 11"
| "tree_code_index MULT_EXPR = 12"
| "tree_code_index NEGATE_EXPR = 13"
| "tree_code_index LT_EXPR = 14"
| "tree_code_index LE_EXPR = 15"
| "tree_code_index GT_EXPR = 16"
| "tree_code_index GE_EXPR = 17"
| "tree_code_index LTGT_EXPR = 18"
| "tree_code_index EQ_EXPR = 19"
| "tree_code_index NE_EXPR = 20"
| "tree_code_index UNORDERED_EXPR = 21"
| "tree_code_index ORDERED_EXPR = 22"
| "tree_code_index UNLT_EXPR = 23"
| "tree_code_index UNLE_EXPR = 24"
| "tree_code_index UNGT_EXPR = 25"
| "tree_code_index UNGE_EXPR = 26"
| "tree_code_index UNEQ_EXPR = 27"
| "tree_code_index SSA_NAME = 28"

definition code_less :: "tree_code \<Rightarrow> tree_code \<Rightarrow> bool" where
  "code_less a b = (tree_code_index a < tree_code_index b)"

subsection \<open>Types, trees and statements\<close>

text \<open>
  A type node carries its own tree code (\<^verbatim>\<open>TREE_CODE (type)\<close>), the flag read by
  \<^verbatim>\<open>TYPE_UNSIGNED\<close> and its precision in bits.
\<close>

datatype type_node =
  Type_Node (TYPE_CODE: tree_code) (TYPE_UNSIGNED: bool) (TYPE_PRECISION: nat)

text \<open>
  Statements live in memory and are referred to by address: an SSA name holds the address
  of its defining statement (\<^verbatim>\<open>SSA_NAME_DEF_STMT\<close>), and the pass overwrites the operands
  of a statement in place.
\<close>

type_synonym stmt_ptr = nat

text \<open>
  The operands the pass can meet: integer and real constants, SSA names (type, version,
  address of the defining statement), declarations that are not in SSA form, and the
  binary expression node that \<^verbatim>\<open>build2\<close> allocates.
\<close>

datatype tree =
    Integer_Cst type_node int
  | Real_Cst type_node string
  | Ssa_Name type_node nat stmt_ptr
  | Var_Decl type_node string
  | Parm_Decl type_node string
  | Binary_Expr tree_code type_node tree tree

fun TREE_CODE :: "tree \<Rightarrow> tree_code" where
  "TREE_CODE (Integer_Cst ty v) = INTEGER_CST"
| "TREE_CODE (Real_Cst ty s) = REAL_CST"
| "TREE_CODE (Ssa_Name ty ver d) = SSA_NAME"
| "TREE_CODE (Var_Decl ty n) = VAR_DECL"
| "TREE_CODE (Parm_Decl ty n) = PARM_DECL"
| "TREE_CODE (Binary_Expr code ty a b) = code"

fun TREE_TYPE :: "tree \<Rightarrow> type_node" where
  "TREE_TYPE (Integer_Cst ty v) = ty"
| "TREE_TYPE (Real_Cst ty s) = ty"
| "TREE_TYPE (Ssa_Name ty ver d) = ty"
| "TREE_TYPE (Var_Decl ty n) = ty"
| "TREE_TYPE (Parm_Decl ty n) = ty"
| "TREE_TYPE (Binary_Expr code ty a b) = ty"

text \<open>
  \<^verbatim>\<open>TREE_OPERAND (t, i)\<close>: only an expression node has operands, and a binary one
  has two.
\<close>

fun TREE_OPERAND :: "tree \<Rightarrow> nat \<Rightarrow> tree option" where
  "TREE_OPERAND (Binary_Expr code ty a b) i =
     (if i = 0 then Some a else if i = 1 then Some b else None)"
| "TREE_OPERAND t i = None"

definition build2 :: "tree_code \<Rightarrow> type_node \<Rightarrow> tree \<Rightarrow> tree \<Rightarrow> tree" where
  "build2 code ty a b = Binary_Expr code ty a b"

text \<open>
  A conditional branch (\<^verbatim>\<open>gcond\<close>): comparison code, left operand, right operand.
\<close>

datatype gcond =
  Gcond (gimple_cond_code: tree_code) (gimple_cond_lhs: tree) (gimple_cond_rhs: tree)

fun gimple_cond_set_lhs :: "gcond \<Rightarrow> tree \<Rightarrow> gcond" where
  "gimple_cond_set_lhs (Gcond code l r) x = Gcond code x r"

fun gimple_cond_set_rhs :: "gcond \<Rightarrow> tree \<Rightarrow> gcond" where
  "gimple_cond_set_rhs (Gcond code l r) y = Gcond code l y"

text \<open>
  \<^verbatim>\<open>update_stmt\<close> refreshes the operand caches of a statement whose operands were
  written; it leaves code and operands as they are.
\<close>

definition update_stmt :: "gcond \<Rightarrow> gcond" where
  "update_stmt stmt = stmt"

text \<open>
  The statement kinds: an assignment has a left-hand side, the code of its right-hand side,
  the first operand and, for a binary right-hand side, the second one
  (\<^verbatim>\<open>gimple_assign_rhs2\<close> is \<^verbatim>\<open>NULL_TREE\<close> otherwise).
\<close>

datatype gimple =
    GIMPLE_ASSIGN tree tree_code tree "tree option"
  | GIMPLE_COND gcond
  | GIMPLE_LABEL string
  | GIMPLE_CALL "tree option" string "tree list"
  | GIMPLE_PHI tree "tree list"
  | GIMPLE_RETURN "tree option"
  | GIMPLE_NOP

type_synonym stmt_memory = "stmt_ptr \<Rightarrow> gimple"

subsection \<open>The classifier\<close>

text \<open>
  Modelled from the spec: \<^verbatim>\<open>integer_zerop\<close> is defined in \<^verbatim>\<open>tree.cc\<close>, outside
  \<^verbatim>\<open>tree-ssa-cmp.cc\<close>. The classifier's contract reads: Zero iff the value is the
  integer constant 0 (any signed-integer width), a signed-integer type being a type that
  is an integer type and not flagged unsigned.
\<close>

fun integer_zerop :: "tree \<Rightarrow> bool" where
  "integer_zerop (Integer_Cst ty v) =
     (v = 0 \<and> TYPE_CODE ty = INTEGER_TYPE \<and> \<not> TYPE_UNSIGNED ty)"
| "integer_zerop t = False"

definition is_signed_integer :: "tree \<Rightarrow> bool" where
  "is_signed_integer var =
     (TYPE_CODE (TREE_TYPE var) = INTEGER_TYPE \<and> \<not> TYPE_UNSIGNED (TREE_TYPE var))"

text \<open>
  \<^verbatim>\<open>NULL_TREE\<close> is \<open>None\<close>. The statement at the address held by the SSA name is read
  once; a \<^verbatim>\<open>MINUS_EXPR\<close> right-hand side is binary, so its second operand is present
  in every well-formed assignment.
\<close>

definition prop_integer_zero_or_minus_expr :: "stmt_memory \<Rightarrow> tree \<Rightarrow> tree option" where
  "prop_integer_zero_or_minus_expr mem expr =
     (if integer_zerop expr then Some expr
      else case expr of
        Ssa_Name ty ver def_addr \<Rightarrow>
          (case mem def_addr of
             GIMPLE_ASSIGN lhs rhs_code rhs1 (Some rhs2) \<Rightarrow>
               if rhs_code \<noteq> MINUS_EXPR then None
               else if \<not> is_signed_integer rhs1 then None
               else if \<not> is_signed_integer rhs2 then None
               else Some (build2 MINUS_EXPR (TREE_TYPE expr) rhs1 rhs2)
           | _ \<Rightarrow> None)
      | _ \<Rightarrow> None)"

subsection \<open>The rewrite\<close>

text \<open>
  The statement is passed in and the statement as it stands on return is the result. The
  two operand writes and the refresh happen together in each of the two rewriting
  branches.
\<close>

definition optimize_signed_comparison :: "stmt_memory \<Rightarrow> gcond \<Rightarrow> gcond" where
  "optimize_signed_comparison mem stmt =
     (let code = gimple_cond_code stmt in
      if code_less code LT_EXPR \<or> code_less GE_EXPR code then stmt
      else case prop_integer_zero_or_minus_expr mem (gimple_cond_lhs stmt) of
        None \<Rightarrow> stmt
      | Some lhs \<Rightarrow>
         (case prop_integer_zero_or_minus_expr mem (gimple_cond_rhs stmt) of
            None \<Rightarrow> stmt
          | Some rhs \<Rightarrow>
              if TREE_CODE lhs = MINUS_EXPR \<and> integer_zerop rhs then
                (case (TREE_OPERAND lhs 0, TREE_OPERAND lhs 1) of
                   (Some x, Some y) \<Rightarrow>
                     update_stmt (gimple_cond_set_rhs (gimple_cond_set_lhs stmt x) y)
                 | _ \<Rightarrow> stmt)
              else if integer_zerop lhs \<and> TREE_CODE rhs = MINUS_EXPR then
                (case (TREE_OPERAND rhs 0, TREE_OPERAND rhs 1) of
                   (Some x, Some y) \<Rightarrow>
                     update_stmt (gimple_cond_set_rhs (gimple_cond_set_lhs stmt y) x)
                 | _ \<Rightarrow> stmt)
              else stmt))"


text \<open>
  The three outcomes of the classifier as the design names them, read off the tree that
  \<^verbatim>\<open>prop_integer_zero_or_minus_expr\<close> returns with the same two tests that
  \<^verbatim>\<open>optimize_signed_comparison\<close> applies to it.
\<close>

datatype classification = Zero | Subtraction tree tree | NoMatch

definition classify :: "stmt_memory \<Rightarrow> tree \<Rightarrow> classification" where
  "classify mem v =
     (case prop_integer_zero_or_minus_expr mem v of
        None \<Rightarrow> NoMatch
      | Some t \<Rightarrow>
          if integer_zerop t then Zero
          else if TREE_CODE t = MINUS_EXPR then
            (case (TREE_OPERAND t 0, TREE_OPERAND t 1) of
               (Some x, Some y) \<Rightarrow> Subtraction x y
             | _ \<Rightarrow> NoMatch)
          else NoMatch)"

subsection \<open>The pass: gate, block hook, walk\<close>

text \<open>The two option variables the gate reads.\<close>

record options =
  flag_tree_cmp :: int
  flag_wrapv :: int

definition gate :: "options \<Rightarrow> bool" where
  "gate opts = (flag_tree_cmp opts \<noteq> 0 \<and> flag_wrapv opts = 0)"

type_synonym basic_block = nat

text \<open>
  Modelled from the spec: the dominator tree is computed by
  \<^verbatim>\<open>calculate_dominance_info\<close>, outside \<^verbatim>\<open>tree-ssa-cmp.cc\<close>; the pass only reads
  it. A node is a block with the blocks it immediately dominates.
\<close>

datatype domtree = Dom_Node basic_block "domtree list"

text \<open>
  A function body: the statements in memory, the statement sequence of each block, the
  successor edges of each block, and the dominator tree rooted at the entry block.
\<close>

record function_body =
  stmt_mem :: stmt_memory
  bb_stmts :: "basic_block \<Rightarrow> stmt_ptr list"
  bb_succs :: "basic_block \<Rightarrow> basic_block list"
  dom_info :: domtree

fun is_gimple_label :: "gimple \<Rightarrow> bool" where
  "is_gimple_label (GIMPLE_LABEL l) = True"
| "is_gimple_label g = False"

fun is_gimple_cond :: "gimple \<Rightarrow> bool" where
  "is_gimple_cond (GIMPLE_COND c) = True"
| "is_gimple_cond g = False"

text \<open>
  Modelled from the spec: \<^verbatim>\<open>gsi_after_labels\<close> comes from \<^verbatim>\<open>gimple-iterator.h\<close>;
  it positions the iterator behind the labels that open the block.
\<close>

definition gsi_after_labels :: "function_body \<Rightarrow> basic_block \<Rightarrow> stmt_ptr list" where
  "gsi_after_labels fn bb =
     dropWhile (\<lambda>p. is_gimple_label (stmt_mem fn p)) (bb_stmts fn bb)"

text \<open>
  The loop of \<^verbatim>\<open>after_dom_children\<close> over the statements from the iterator to the
  end of the block: a \<^verbatim>\<open>GIMPLE_COND\<close> is rewritten in place, anything else is skipped.
\<close>

fun cmp_stmt_loop :: "stmt_ptr list \<Rightarrow> stmt_memory \<Rightarrow> stmt_memory" where
  "cmp_stmt_loop [] mem = mem"
| "cmp_stmt_loop (p # gsi) mem =
     cmp_stmt_loop gsi
       (case mem p of
          GIMPLE_COND stmt \<Rightarrow> mem(p := GIMPLE_COND (optimize_signed_comparison mem stmt))
        | _ \<Rightarrow> mem)"

definition after_dom_children :: "function_body \<Rightarrow> basic_block \<Rightarrow> function_body" where
  "after_dom_children fn bb =
     fn\<lparr>stmt_mem := cmp_stmt_loop (gsi_after_labels fn bb) (stmt_mem fn)\<rparr>"

text \<open>
  Modelled from the spec: \<^verbatim>\<open>dom_walker::walk\<close> comes from \<^verbatim>\<open>domwalk.cc\<close>. The
  traversal is post-order over the dominator tree: the children of a block are walked
  before the hook \<^verbatim>\<open>after_dom_children\<close> runs on the block itself.
\<close>

fun walk :: "domtree \<Rightarrow> function_body \<Rightarrow> function_body" where
  "walk (Dom_Node bb sons) fn = after_dom_children (fold walk sons fn) bb"

text \<open>
  \<^verbatim>\<open>pass_cmp::execute\<close>: the walk from the entry block over the dominator tree of the
  function. The returned TODO flags are the constant 0 and are left out.
\<close>

definition execute :: "function_body \<Rightarrow> function_body" where
  "execute fn = walk (dom_info fn) fn"

text \<open>
  Modelled from the spec: the pass manager runs \<^verbatim>\<open>execute\<close> only when the gate holds;
  if the gate is false, the pass performs no traversal and no mutation.
\<close>

definition run_pass :: "options \<Rightarrow> function_body \<Rightarrow> function_body" where
  "run_pass opts fn = (if gate opts then execute fn else fn)"

subsection \<open>Visiting orders\<close>

text \<open>The blocks in the order in which the walk runs the hook on them.\<close>

fun postorder_blocks :: "domtree \<Rightarrow> basic_block list" where
  "postorder_blocks (Dom_Node bb sons) = concat (map postorder_blocks sons) @ [bb]"

definition visited_stmts :: "function_body \<Rightarrow> stmt_ptr list" where
  "visited_stmts fn = concat (map (gsi_after_labels fn) (postorder_blocks (dom_info fn)))"

definition function_conds :: "function_body \<Rightarrow> stmt_ptr list" where
  "function_conds fn = filter (\<lambda>p. is_gimple_cond (stmt_mem fn p)) (visited_stmts fn)"

text \<open>
  A traversal that visits the comparisons in a given order, as the design words it: each
  listed statement is handed to the rewrite, one after the other.
\<close>

definition traverse_in_order :: "stmt_ptr list \<Rightarrow> function_body \<Rightarrow> function_body" where
  "traverse_in_order order fn = fn\<lparr>stmt_mem := cmp_stmt_loop order (stmt_mem fn)\<rparr>"

subsection \<open>Static single assignment\<close>

text \<open>The value a statement defines, if any.\<close>

fun gimple_get_lhs :: "gimple \<Rightarrow> tree option" where
  "gimple_get_lhs (GIMPLE_ASSIGN lhs code rhs1 rhs2) = Some lhs"
| "gimple_get_lhs (GIMPLE_CALL lhs f args) = lhs"
| "gimple_get_lhs (GIMPLE_PHI res args) = Some res"
| "gimple_get_lhs g = None"

fun ssa_versions :: "tree option \<Rightarrow> nat list" where
  "ssa_versions (Some (Ssa_Name ty ver d)) = [ver]"
| "ssa_versions t = []"

definition function_stmts :: "function_body \<Rightarrow> stmt_ptr list" where
  "function_stmts fn = concat (map (bb_stmts fn) (postorder_blocks (dom_info fn)))"

text \<open>
  SSA form as the glossary has it: every value is produced by exactly one defining
  instruction, so no SSA version is defined by two statements of the function.
\<close>

definition ssa_form :: "function_body \<Rightarrow> bool" where
  "ssa_form fn =
     distinct (concat (map (\<lambda>p. ssa_versions (gimple_get_lhs (stmt_mem fn p)))
                           (function_stmts fn)))"

subsection \<open>Signed comparison of machine integers\<close>

text \<open>
  The truth value of a comparison code on two signed integers of the same width; the
  unordered codes belong to floating point and never hold here.
\<close>

fun comparison_holds :: "tree_code \<Rightarrow> 'a::len word \<Rightarrow> 'a word \<Rightarrow> bool" where
  "comparison_holds LT_EXPR a b = (sint a < sint b)"
| "comparison_holds LE_EXPR a b = (sint a \<le> sint b)"
| "comparison_holds GT_EXPR a b = (sint a > sint b)"
| "comparison_holds GE_EXPR a b = (sint a \<ge> sint b)"
| "comparison_holds EQ_EXPR a b = (a = b)"
| "comparison_holds NE_EXPR a b = (a \<noteq> b)"
| "comparison_holds code a b = False"

text \<open>The mathematical difference leaves the range of the type.\<close>

definition signed_minus_overflows :: "'a::len word \<Rightarrow> 'a word \<Rightarrow> bool" where
  "signed_minus_overflows x y =
     (sint x - sint y < - (2 ^ (LENGTH('a) - 1)) \<or> 2 ^ (LENGTH('a) - 1) \<le> sint x - sint y)"

subsection \<open>The truth value of a conditional branch\<close>

text \<open>
  An environment gives every SSA version its value; an integer constant has its own
  value. All values have the width of the word type.
\<close>

fun eval_operand :: "(nat \<Rightarrow> 'a::len word) \<Rightarrow> tree \<Rightarrow> 'a word option" where
  "eval_operand env (Integer_Cst ty v) = Some (word_of_int v)"
| "eval_operand env (Ssa_Name ty ver d) = Some (env ver)"
| "eval_operand env t = None"

definition eval_gcond :: "(nat \<Rightarrow> 'a::len word) \<Rightarrow> gcond \<Rightarrow> bool option" where
  "eval_gcond env stmt =
     (case (eval_operand env (gimple_cond_lhs stmt), eval_operand env (gimple_cond_rhs stmt)) of
        (Some a, Some b) \<Rightarrow> Some (comparison_holds (gimple_cond_code stmt) a b)
      | _ \<Rightarrow> None)"

text \<open>
  The environment agrees with the definition of an operand: an SSA name defined by a
  subtraction has the difference of the operands as its value, and that subtraction did
  not overflow (without \<^verbatim>\<open>-fwrapv\<close> an overflow is undefined behaviour).
\<close>

definition minus_defined :: "(nat \<Rightarrow> 'a::len word) \<Rightarrow> stmt_memory \<Rightarrow> tree \<Rightarrow> bool" where
  "minus_defined env mem v =
     (case v of
        Ssa_Name ty ver d \<Rightarrow>
          (case mem d of
             GIMPLE_ASSIGN lhs rhs_code rhs1 (Some rhs2) \<Rightarrow>
               if rhs_code = MINUS_EXPR then
                 (case (eval_operand env rhs1, eval_operand env rhs2) of
                    (Some a, Some b) \<Rightarrow> env ver = a - b \<and> \<not> signed_minus_overflows a b
                  | _ \<Rightarrow> False)
               else True
           | _ \<Rightarrow> True)
      | _ \<Rightarrow> True)"

subsection \<open>The effect of the loop on one statement\<close>

text \<open>What one iteration of the loop stores back at the address it visits.\<close>

definition rewrite_gimple :: "stmt_memory \<Rightarrow> gimple \<Rightarrow> gimple" where
  "rewrite_gimple mem g =
     (case g of GIMPLE_COND stmt \<Rightarrow> GIMPLE_COND (optimize_signed_comparison mem stmt) | _ \<Rightarrow> g)"

text \<open>
  Two memories that differ at most in conditional branches: every address holds the same
  statement in both, or a conditional branch in both.
\<close>

definition same_defs :: "stmt_memory \<Rightarrow> stmt_memory \<Rightarrow> bool" where
  "same_defs m m' = (\<forall>p. m' p = m p \<or> (is_gimple_cond (m p) \<and> is_gimple_cond (m' p)))"

subsection \<open>Example inputs\<close>

definition int_type :: type_node where
  "int_type = Type_Node INTEGER_TYPE False 32"

definition unsigned_type :: type_node where
  "unsigned_type = Type_Node INTEGER_TYPE True 32"

definition int_zero :: tree where
  "int_zero = Integer_Cst int_type 0"

definition unsigned_zero :: tree where
  "unsigned_zero = Integer_Cst unsigned_type 0"

text \<open>
  The parameters \<^verbatim>\<open>x_2(D)\<close> and \<^verbatim>\<open>y_3(D)\<close> (default definitions: the statement
  at address 0 is a \<^verbatim>\<open>GIMPLE_NOP\<close>) and \<^verbatim>\<open>diff_4\<close>, defined at address 1.
\<close>

definition x_2 :: tree where
  "x_2 = Ssa_Name int_type 2 0"

definition y_3 :: tree where
  "y_3 = Ssa_Name int_type 3 0"

definition diff_4 :: tree where
  "diff_4 = Ssa_Name int_type 4 1"

definition no_stmts :: stmt_memory where
  "no_stmts = (\<lambda>p. GIMPLE_NOP)"

text \<open>
  The function \<^verbatim>\<open>f1\<close> of the test for this pass:
  \<^verbatim>\<open>int diff = x - y; if (diff > 0) foo (); if (diff < 0) bar ();\<close>
\<close>

definition f1_mem :: stmt_memory where
  "f1_mem = no_stmts
     (1 := GIMPLE_ASSIGN diff_4 MINUS_EXPR x_2 (Some y_3),
      2 := GIMPLE_COND (Gcond GT_EXPR diff_4 int_zero),
      3 := GIMPLE_CALL None ''foo'' [],
      4 := GIMPLE_COND (Gcond LT_EXPR diff_4 int_zero),
      5 := GIMPLE_CALL None ''bar'' [],
      6 := GIMPLE_LABEL ''L'',
      7 := GIMPLE_RETURN None)"

definition f1 :: function_body where
  "f1 = \<lparr>stmt_mem = f1_mem,
          bb_stmts = (\<lambda>bb. [])(2 := [1, 2], 3 := [3], 4 := [4], 5 := [5], 6 := [6, 7]),
          bb_succs = (\<lambda>bb. [])(2 := [3, 4], 3 := [4], 4 := [5, 6], 5 := [6]),
          dom_info = Dom_Node 2 [Dom_Node 3 [], Dom_Node 4 [Dom_Node 5 [], Dom_Node 6 []]]\<rparr>"

text \<open>
  A subtraction of a subtraction:
  \<^verbatim>\<open>x_5 = x_2 - y_3; t_6 = x_5 - 0; if (t_6 < 0) ...\<close>
\<close>

definition x_5 :: tree where
  "x_5 = Ssa_Name int_type 5 1"

definition t_6 :: tree where
  "t_6 = Ssa_Name int_type 6 2"

definition nested_mem :: stmt_memory where
  "nested_mem = no_stmts
     (1 := GIMPLE_ASSIGN x_5 MINUS_EXPR x_2 (Some y_3),
      2 := GIMPLE_ASSIGN t_6 MINUS_EXPR x_5 (Some int_zero),
      3 := GIMPLE_COND (Gcond LT_EXPR t_6 int_zero))"

definition nested :: function_body where
  "nested = \<lparr>stmt_mem = nested_mem,
              bb_stmts = (\<lambda>bb. [])(2 := [1, 2, 3]),
              bb_succs = (\<lambda>bb. []),
              dom_info = Dom_Node 2 []\<rparr>"

text \<open>
  Subtractions that are not of two signed integers: of two unsigned integers, of two
  floating-point values, and of a signed and an unsigned integer.
\<close>

definition real_type :: type_node where
  "real_type = Type_Node REAL_TYPE False 64"

definition ua_2 :: tree where
  "ua_2 = Ssa_Name unsigned_type 2 0"

definition ub_3 :: tree where
  "ub_3 = Ssa_Name unsigned_type 3 0"

definition fa_4 :: tree where
  "fa_4 = Ssa_Name real_type 4 0"

definition fb_5 :: tree where
  "fb_5 = Ssa_Name real_type 5 0"

definition udiff_6 :: tree where
  "udiff_6 = Ssa_Name unsigned_type 6 1"

definition fdiff_7 :: tree where
  "fdiff_7 = Ssa_Name real_type 7 2"

definition mixed_8 :: tree where
  "mixed_8 = Ssa_Name int_type 8 3"

definition other_mem :: stmt_memory where
  "other_mem = no_stmts
     (1 := GIMPLE_ASSIGN udiff_6 MINUS_EXPR ua_2 (Some ub_3),
      2 := GIMPLE_ASSIGN fdiff_7 MINUS_EXPR fa_4 (Some fb_5),
      3 := GIMPLE_ASSIGN mixed_8 MINUS_EXPR x_2 (Some ub_3))"

text \<open>
  A run of \<^verbatim>\<open>f1\<close> with \<open>x = 7\<close> and \<open>y = 5\<close>: the values of \<^verbatim>\<open>x_2\<close>, \<^verbatim>\<open>y_3\<close>
  and \<^verbatim>\<open>diff_4\<close>.
\<close>

definition f1_env :: "nat \<Rightarrow> 32 word" where
  "f1_env = (\<lambda>ver. 0)(2 := 7, 3 := 5, 4 := 2)"

section \<open>Properties\<close>

lemmas example_defs = int_type_def unsigned_type_def int_zero_def unsigned_zero_def
  x_2_def y_3_def diff_4_def no_stmts_def f1_mem_def x_5_def t_6_def nested_mem_def
  real_type_def ua_2_def ub_3_def fa_4_def fb_5_def udiff_6_def fdiff_7_def mixed_8_def
  other_mem_def

subsection \<open>The code-range check and non-overflowing subtraction\<close>

lemma ordered_code_cases:
  "\<not> (code_less code LT_EXPR \<or> code_less GE_EXPR code)
     \<longleftrightarrow> code \<in> {LT_EXPR, LE_EXPR, GT_EXPR, GE_EXPR}"
  by (cases code) (simp_all add: code_less_def)

lemma sint_minus_no_overflow:
  "\<not> signed_minus_overflows x y \<Longrightarrow> sint (x - y) = sint x - sint y"
  unfolding signed_minus_overflows_def
  by (simp add: sint_word_ariths signed_take_bit_int_eq_self)

subsection \<open>What the classifier returns\<close>

lemma integer_zerop_iff:
  "integer_zerop v \<longleftrightarrow>
     (\<exists>ty. v = Integer_Cst ty 0 \<and> TYPE_CODE ty = INTEGER_TYPE \<and> \<not> TYPE_UNSIGNED ty)"
  by (cases v) auto

lemma prop_zero:
  "integer_zerop v \<Longrightarrow> prop_integer_zero_or_minus_expr mem v = Some v"
  by (simp add: prop_integer_zero_or_minus_expr_def)

lemma prop_minus:
  "mem d = GIMPLE_ASSIGN lhs MINUS_EXPR x (Some y) \<Longrightarrow> is_signed_integer x \<Longrightarrow>
   is_signed_integer y \<Longrightarrow>
   prop_integer_zero_or_minus_expr mem (Ssa_Name ty ver d) = Some (Binary_Expr MINUS_EXPR ty x y)"
  by (simp add: prop_integer_zero_or_minus_expr_def build2_def)

lemma prop_Some_iff:
  "prop_integer_zero_or_minus_expr mem v = Some t \<longleftrightarrow>
     (integer_zerop v \<and> t = v) \<or>
     (\<exists>ty ver d lhs x y. v = Ssa_Name ty ver d
        \<and> mem d = GIMPLE_ASSIGN lhs MINUS_EXPR x (Some y)
        \<and> is_signed_integer x \<and> is_signed_integer y
        \<and> t = Binary_Expr MINUS_EXPR ty x y)"
proof (cases v)
  case (Ssa_Name ty ver d)
  then show ?thesis
    unfolding prop_integer_zero_or_minus_expr_def build2_def
    by (auto split: gimple.splits option.splits)
qed (auto simp: prop_integer_zero_or_minus_expr_def)

lemma classify_zero: "integer_zerop v \<Longrightarrow> classify mem v = Zero"
  by (simp add: classify_def prop_zero)

lemma classify_minus:
  "mem d = GIMPLE_ASSIGN lhs MINUS_EXPR x (Some y) \<Longrightarrow> is_signed_integer x \<Longrightarrow>
   is_signed_integer y \<Longrightarrow> classify mem (Ssa_Name ty ver d) = Subtraction x y"
  by (simp add: classify_def prop_minus)

lemma classify_none:
  "prop_integer_zero_or_minus_expr mem v = None \<Longrightarrow> classify mem v = NoMatch"
  by (simp add: classify_def)

lemma classify_cases:
  obtains (zero) "integer_zerop v" "classify mem v = Zero"
  | (minus) ty ver d lhs x y where "v = Ssa_Name ty ver d"
      "mem d = GIMPLE_ASSIGN lhs MINUS_EXPR x (Some y)"
      "is_signed_integer x" "is_signed_integer y" "classify mem v = Subtraction x y"
  | (none) "prop_integer_zero_or_minus_expr mem v = None" "classify mem v = NoMatch"
proof (cases "prop_integer_zero_or_minus_expr mem v")
  case None
  then show ?thesis using none classify_none by blast
next
  case (Some t)
  then show ?thesis
    unfolding prop_Some_iff
    using zero minus classify_zero classify_minus by blast
qed

lemma classify_Zero_iff: "classify mem v = Zero \<longleftrightarrow> integer_zerop v"
  by (rule classify_cases [where v = v and mem = mem]) (auto simp: prop_zero)

lemma classify_Subtraction_iff:
  "classify mem v = Subtraction x y \<longleftrightarrow>
     (\<exists>ty ver d lhs. v = Ssa_Name ty ver d
        \<and> mem d = GIMPLE_ASSIGN lhs MINUS_EXPR x (Some y)
        \<and> is_signed_integer x \<and> is_signed_integer y)"
  by (rule classify_cases [where v = v and mem = mem]) (auto simp: prop_minus)

lemma classify_NoMatch_iff:
  "classify mem v = NoMatch \<longleftrightarrow> prop_integer_zero_or_minus_expr mem v = None"
  by (rule classify_cases [where v = v and mem = mem]) (auto simp: prop_minus prop_zero)

lemma integer_zerop_code: "integer_zerop v \<Longrightarrow> TREE_CODE v \<noteq> MINUS_EXPR"
  by (cases v) auto

lemma optimize_guard:
  "code_less code LT_EXPR \<or> code_less GE_EXPR code \<Longrightarrow>
   optimize_signed_comparison mem (Gcond code l r) = Gcond code l r"
  by (simp add: optimize_signed_comparison_def)

lemma optimize_ordered:
  assumes "\<not> (code_less code LT_EXPR \<or> code_less GE_EXPR code)"
  shows "optimize_signed_comparison mem (Gcond code l r) =
     (case (classify mem l, classify mem r) of
        (Subtraction x y, Zero) \<Rightarrow> Gcond code x y
      | (Zero, Subtraction x y) \<Rightarrow> Gcond code y x
      | _ \<Rightarrow> Gcond code l r)"
proof (rule classify_cases [where v = l and mem = mem])
  assume l: "integer_zerop l" "classify mem l = Zero"
  show ?thesis
  proof (rule classify_cases [where v = r and mem = mem])
    assume "integer_zerop r" "classify mem r = Zero"
    with l assms show ?thesis
      by (simp add: optimize_signed_comparison_def prop_zero integer_zerop_code)
  next
    fix ty ver d lhs x y
    assume "r = Ssa_Name ty ver d" "mem d = GIMPLE_ASSIGN lhs MINUS_EXPR x (Some y)"
      "is_signed_integer x" "is_signed_integer y" "classify mem r = Subtraction x y"
    with l assms show ?thesis
      by (simp add: optimize_signed_comparison_def prop_zero prop_minus integer_zerop_code
          update_stmt_def)
  next
    assume "prop_integer_zero_or_minus_expr mem r = None" "classify mem r = NoMatch"
    with l assms show ?thesis
      by (simp add: optimize_signed_comparison_def prop_zero)
  qed
next
  fix ty ver d lhs x y
  assume l: "l = Ssa_Name ty ver d" "mem d = GIMPLE_ASSIGN lhs MINUS_EXPR x (Some y)"
      "is_signed_integer x" "is_signed_integer y" "classify mem l = Subtraction x y"
  show ?thesis
  proof (rule classify_cases [where v = r and mem = mem])
    assume "integer_zerop r" "classify mem r = Zero"
    with l assms show ?thesis
      by (simp add: optimize_signed_comparison_def prop_zero prop_minus update_stmt_def)
  next
    fix ty' ver' d' lhs' x' y'
    assume "r = Ssa_Name ty' ver' d'" "mem d' = GIMPLE_ASSIGN lhs' MINUS_EXPR x' (Some y')"
      "is_signed_integer x'" "is_signed_integer y'" "classify mem r = Subtraction x' y'"
    with l assms show ?thesis
      by (simp add: optimize_signed_comparison_def prop_minus)
  next
    assume "prop_integer_zero_or_minus_expr mem r = None" "classify mem r = NoMatch"
    with l assms show ?thesis
      by (simp add: optimize_signed_comparison_def prop_minus)
  qed
next
  assume "prop_integer_zero_or_minus_expr mem l = None" "classify mem l = NoMatch"
  with assms show ?thesis
    by (simp add: optimize_signed_comparison_def)
qed


lemma prop_reads_def_stmt:
  assumes "\<forall>ty ver d. v = Ssa_Name ty ver d \<longrightarrow> mem' d = mem d"
  shows "prop_integer_zero_or_minus_expr mem' v = prop_integer_zero_or_minus_expr mem v"
  using assms by (cases v) (simp_all add: prop_integer_zero_or_minus_expr_def)

subsection \<open>Memories that differ in conditional branches only\<close>

lemma is_gimple_cond_iff: "is_gimple_cond g \<longleftrightarrow> (\<exists>c. g = GIMPLE_COND c)"
  by (cases g) auto

lemma same_defs_refl: "same_defs m m"
  by (simp add: same_defs_def)

lemma same_defs_trans: "same_defs a b \<Longrightarrow> same_defs b c \<Longrightarrow> same_defs a c"
  unfolding same_defs_def by metis

lemma same_defs_prop:
  assumes "same_defs m m'"
  shows "prop_integer_zero_or_minus_expr m' v = prop_integer_zero_or_minus_expr m v"
proof (cases v)
  case (Ssa_Name ty ver d)
  from assms have "m' d = m d \<or> (is_gimple_cond (m d) \<and> is_gimple_cond (m' d))"
    by (simp add: same_defs_def)
  then show ?thesis
    by (auto simp: Ssa_Name prop_integer_zero_or_minus_expr_def is_gimple_cond_iff)
qed (simp_all add: prop_integer_zero_or_minus_expr_def)

lemma same_defs_optimize:
  assumes "same_defs m m'"
  shows "optimize_signed_comparison m' stmt = optimize_signed_comparison m stmt"
  unfolding optimize_signed_comparison_def same_defs_prop [OF assms] by (rule refl)

lemma same_defs_rewrite:
  assumes "same_defs m m'"
  shows "rewrite_gimple m' = rewrite_gimple m"
  by (rule ext) (simp add: rewrite_gimple_def same_defs_optimize [OF assms] split: gimple.splits)

lemma rewrite_gimple_cond [simp]: "is_gimple_cond (rewrite_gimple m g) = is_gimple_cond g"
  by (cases g) (simp_all add: rewrite_gimple_def)

lemma rewrite_gimple_other: "\<not> is_gimple_cond g \<Longrightarrow> rewrite_gimple m g = g"
  by (cases g) (simp_all add: rewrite_gimple_def)

lemma loop_step:
  "(case mem p of
      GIMPLE_COND stmt \<Rightarrow> mem(p := GIMPLE_COND (optimize_signed_comparison mem stmt))
    | _ \<Rightarrow> mem) = mem(p := rewrite_gimple mem (mem p))"
  using fun_upd_triv [of mem p] by (cases "mem p") (simp_all add: rewrite_gimple_def)

lemma cmp_stmt_loop_Cons:
  "cmp_stmt_loop (p # gsi) mem = cmp_stmt_loop gsi (mem(p := rewrite_gimple mem (mem p)))"
  by (simp only: cmp_stmt_loop.simps loop_step)

lemma same_defs_step: "same_defs m (m(p := rewrite_gimple m (m p)))"
  by (cases "is_gimple_cond (m p)") (simp_all add: same_defs_def rewrite_gimple_other)

lemma funpow_fixed: "f x = x \<Longrightarrow> (f ^^ n) x = x"
  by (induction n) simp_all

text \<open>
  The loop in closed form: the statement at an address is rewritten once for every visit
  of the address, and every rewrite classifies with the memory the loop started from.
\<close>

lemma cmp_stmt_loop_at:
  "cmp_stmt_loop ps m q = (rewrite_gimple m ^^ count_list ps q) (m q)"
proof (induction ps arbitrary: m)
  case Nil
  show ?case by simp
next
  case (Cons p ps)
  let ?m = "m(p := rewrite_gimple m (m p))"
  have r: "rewrite_gimple ?m = rewrite_gimple m"
    by (rule same_defs_rewrite) (rule same_defs_step)
  have "cmp_stmt_loop (p # ps) m q = (rewrite_gimple m ^^ count_list ps q) (?m q)"
    by (simp only: cmp_stmt_loop_Cons Cons.IH r)
  also have "\<dots> = (rewrite_gimple m ^^ count_list (p # ps) q) (m q)"
    by (simp add: funpow_swap1)
  finally show ?case .
qed

lemma funpow_rewrite_cond [simp]:
  "is_gimple_cond ((rewrite_gimple m ^^ n) g) = is_gimple_cond g"
  by (induction n) simp_all

lemma funpow_rewrite_other:
  "\<not> is_gimple_cond g \<Longrightarrow> (rewrite_gimple m ^^ n) g = g"
  by (rule funpow_fixed) (rule rewrite_gimple_other)

lemma same_defs_loop: "same_defs m (cmp_stmt_loop ps m)"
  unfolding same_defs_def
proof
  fix q
  show "cmp_stmt_loop ps m q = m q \<or>
        (is_gimple_cond (m q) \<and> is_gimple_cond (cmp_stmt_loop ps m q))"
    by (cases "is_gimple_cond (m q)") (simp_all add: cmp_stmt_loop_at funpow_rewrite_other)
qed

lemma cmp_stmt_loop_append:
  "cmp_stmt_loop (ps @ qs) m = cmp_stmt_loop qs (cmp_stmt_loop ps m)"
  by (induction ps arbitrary: m) simp_all

lemma same_defs_label:
  "same_defs m m' \<Longrightarrow> is_gimple_label (m' p) = is_gimple_label (m p)"
  unfolding same_defs_def is_gimple_cond_iff
  by (metis is_gimple_label.simps(3))

lemma same_defs_after_labels:
  assumes "same_defs (stmt_mem fn) m'"
  shows "gsi_after_labels (fn\<lparr>stmt_mem := m'\<rparr>) bb = gsi_after_labels fn bb"
  using same_defs_label [OF assms] by (simp add: gsi_after_labels_def)


subsection \<open>The walk as a traversal of a statement list\<close>

lemma same_defs_after_labels_fun:
  assumes "same_defs (stmt_mem fn) m'"
  shows "gsi_after_labels (fn\<lparr>stmt_mem := m'\<rparr>) = gsi_after_labels fn"
  by (rule ext) (rule same_defs_after_labels [OF assms])

lemma after_dom_children_eq:
  "after_dom_children fn bb = traverse_in_order (gsi_after_labels fn bb) fn"
  by (simp add: after_dom_children_def traverse_in_order_def)

lemma fold_walk_eq:
  assumes "\<And>s fn. s \<in> set sons \<Longrightarrow>
     walk s fn = traverse_in_order (concat (map (gsi_after_labels fn) (postorder_blocks s))) fn"
  shows "fold walk sons fn =
     traverse_in_order
       (concat (map (\<lambda>s. concat (map (gsi_after_labels fn) (postorder_blocks s))) sons)) fn"
  using assms
proof (induction sons arbitrary: fn)
  case Nil
  show ?case by (simp add: traverse_in_order_def)
next
  case (Cons s ss)
  let ?a = "concat (map (gsi_after_labels fn) (postorder_blocks s))"
  let ?fn = "traverse_in_order ?a fn"
  have w: "walk s fn = ?fn"
    by (rule Cons.prems) simp
  have g: "gsi_after_labels ?fn = gsi_after_labels fn"
    unfolding traverse_in_order_def
    by (rule same_defs_after_labels_fun) (rule same_defs_loop)
  have "fold walk (s # ss) fn = fold walk ss ?fn"
    by (simp add: w)
  also have "\<dots> = traverse_in_order
       (concat (map (\<lambda>s. concat (map (gsi_after_labels ?fn) (postorder_blocks s))) ss)) ?fn"
    by (rule Cons.IH) (rule Cons.prems, simp)
  also have "\<dots> = traverse_in_order
       (concat (map (\<lambda>s. concat (map (gsi_after_labels fn) (postorder_blocks s))) (s # ss))) fn"
    by (simp add: g [unfolded traverse_in_order_def] traverse_in_order_def
        cmp_stmt_loop_append)
  finally show ?case .
qed

lemma walk_eq:
  "walk t fn = traverse_in_order (concat (map (gsi_after_labels fn) (postorder_blocks t))) fn"
proof (induction t arbitrary: fn)
  case (Dom_Node bb sons)
  let ?a = "concat (map (\<lambda>s. concat (map (gsi_after_labels fn) (postorder_blocks s))) sons)"
  let ?fn = "traverse_in_order ?a fn"
  have f: "fold walk sons fn = ?fn"
    by (rule fold_walk_eq) (rule Dom_Node.IH)
  have g: "gsi_after_labels ?fn = gsi_after_labels fn"
    unfolding traverse_in_order_def
    by (rule same_defs_after_labels_fun) (rule same_defs_loop)
  have "walk (Dom_Node bb sons) fn = traverse_in_order (gsi_after_labels ?fn bb) ?fn"
    by (simp add: f after_dom_children_eq)
  also have "\<dots> = traverse_in_order (?a @ gsi_after_labels fn bb) fn"
    by (simp add: g [unfolded traverse_in_order_def] traverse_in_order_def
        cmp_stmt_loop_append)
  also have "?a @ gsi_after_labels fn bb
      = concat (map (gsi_after_labels fn) (postorder_blocks (Dom_Node bb sons)))"
    by (induction sons) simp_all
  finally show ?case .
qed

lemma execute_eq: "execute fn = traverse_in_order (visited_stmts fn) fn"
  by (simp add: execute_def visited_stmts_def walk_eq)

lemma stmt_mem_execute:
  "stmt_mem (execute fn) q
     = (rewrite_gimple (stmt_mem fn) ^^ count_list (visited_stmts fn) q) (stmt_mem fn q)"
  by (simp add: execute_eq traverse_in_order_def cmp_stmt_loop_at)


subsection \<open>The classifier\<close>

text \<open>
  C3. The classifier returns \<open>Subtraction x y\<close> exactly when the value is an SSA name whose
  defining statement is an assignment with a \<^verbatim>\<open>MINUS_EXPR\<close> right-hand side whose two
  operands \<open>x\<close> and \<open>y\<close> both have a type that is an integer type and is not flagged
  unsigned; the tree it returns is the \<^verbatim>\<open>MINUS_EXPR\<close> node built from these two
  operands. Every value that is neither an integer constant 0 nor of this shape (not an
  SSA name, not defined by a subtraction, an unsigned or non-integer operand) is
  \<open>NoMatch\<close>, that is \<^verbatim>\<open>NULL_TREE\<close>. The result depends on memory only through the
  statement at the address the SSA name itself holds, so the definitions of \<open>x\<close> and \<open>y\<close>
  are never read.
\<close>

theorem classifier_subtraction:
  "(classify mem v = Subtraction x y \<longleftrightarrow>
      (\<exists>ty ver d lhs. v = Ssa_Name ty ver d
         \<and> mem d = GIMPLE_ASSIGN lhs MINUS_EXPR x (Some y)
         \<and> TYPE_CODE (TREE_TYPE x) = INTEGER_TYPE \<and> \<not> TYPE_UNSIGNED (TREE_TYPE x)
         \<and> TYPE_CODE (TREE_TYPE y) = INTEGER_TYPE \<and> \<not> TYPE_UNSIGNED (TREE_TYPE y)))
   \<and> (classify mem v = Subtraction x y \<longleftrightarrow>
      prop_integer_zero_or_minus_expr mem v = Some (build2 MINUS_EXPR (TREE_TYPE v) x y))
   \<and> ((\<forall>ty. v \<noteq> Integer_Cst ty 0)
        \<and> \<not> (\<exists>ty ver d lhs a b. v = Ssa_Name ty ver d
               \<and> mem d = GIMPLE_ASSIGN lhs MINUS_EXPR a (Some b)
               \<and> TYPE_CODE (TREE_TYPE a) = INTEGER_TYPE \<and> \<not> TYPE_UNSIGNED (TREE_TYPE a)
               \<and> TYPE_CODE (TREE_TYPE b) = INTEGER_TYPE \<and> \<not> TYPE_UNSIGNED (TREE_TYPE b))
      \<longrightarrow> classify mem v = NoMatch \<and> prop_integer_zero_or_minus_expr mem v = None)
   \<and> ((\<forall>ty ver d. v = Ssa_Name ty ver d \<longrightarrow> mem' d = mem d)
      \<longrightarrow> prop_integer_zero_or_minus_expr mem' v = prop_integer_zero_or_minus_expr mem v
          \<and> classify mem' v = classify mem v)"
proof (intro conjI impI)
  show "classify mem v = Subtraction x y \<longleftrightarrow>
      (\<exists>ty ver d lhs. v = Ssa_Name ty ver d
         \<and> mem d = GIMPLE_ASSIGN lhs MINUS_EXPR x (Some y)
         \<and> TYPE_CODE (TREE_TYPE x) = INTEGER_TYPE \<and> \<not> TYPE_UNSIGNED (TREE_TYPE x)
         \<and> TYPE_CODE (TREE_TYPE y) = INTEGER_TYPE \<and> \<not> TYPE_UNSIGNED (TREE_TYPE y))"
    unfolding classify_Subtraction_iff is_signed_integer_def by blast
next
  show "classify mem v = Subtraction x y \<longleftrightarrow>
      prop_integer_zero_or_minus_expr mem v = Some (build2 MINUS_EXPR (TREE_TYPE v) x y)"
    unfolding classify_Subtraction_iff prop_Some_iff build2_def
    by (cases v) auto
next
  assume a: "(\<forall>ty. v \<noteq> Integer_Cst ty 0)
        \<and> \<not> (\<exists>ty ver d lhs a b. v = Ssa_Name ty ver d
               \<and> mem d = GIMPLE_ASSIGN lhs MINUS_EXPR a (Some b)
               \<and> TYPE_CODE (TREE_TYPE a) = INTEGER_TYPE \<and> \<not> TYPE_UNSIGNED (TREE_TYPE a)
               \<and> TYPE_CODE (TREE_TYPE b) = INTEGER_TYPE \<and> \<not> TYPE_UNSIGNED (TREE_TYPE b))"
  then have z: "\<not> integer_zerop v"
    by (auto simp: integer_zerop_iff)
  have n: "prop_integer_zero_or_minus_expr mem v = None"
  proof (cases "prop_integer_zero_or_minus_expr mem v")
    case (Some t)
    with a z show ?thesis
      unfolding prop_Some_iff is_signed_integer_def by blast
  qed simp
  then show "prop_integer_zero_or_minus_expr mem v = None" .
  from n show "classify mem v = NoMatch" by (rule classify_none)
next
  assume "\<forall>ty ver d. v = Ssa_Name ty ver d \<longrightarrow> mem' d = mem d"
  then have e: "prop_integer_zero_or_minus_expr mem' v = prop_integer_zero_or_minus_expr mem v"
    by (rule prop_reads_def_stmt)
  then show "prop_integer_zero_or_minus_expr mem' v = prop_integer_zero_or_minus_expr mem v" .
  from e show "classify mem' v = classify mem v" by (simp add: classify_def)
qed

text \<open>
  In \<open>f1_mem\<close> the name \<^verbatim>\<open>diff_4\<close> is \<open>x_2 - y_3\<close> and \<^verbatim>\<open>x_2\<close> has no
  subtraction behind it. In \<open>other_mem\<close> the unsigned, the floating-point and the mixed
  subtraction are all \<open>NoMatch\<close>. In \<open>nested_mem\<close> the name \<^verbatim>\<open>t_6\<close> classifies with
  \<^verbatim>\<open>x_5\<close> as it stands, and overwriting the definition of \<^verbatim>\<open>x_5\<close> changes nothing.
\<close>

theorem classifier_subtraction_witness:
  "classify f1_mem diff_4 = Subtraction x_2 y_3
   \<and> prop_integer_zero_or_minus_expr f1_mem diff_4
        = Some (build2 MINUS_EXPR (TREE_TYPE diff_4) x_2 y_3)
   \<and> classify f1_mem x_2 = NoMatch
   \<and> classify other_mem udiff_6 = NoMatch
   \<and> classify other_mem fdiff_7 = NoMatch
   \<and> classify other_mem mixed_8 = NoMatch
   \<and> classify (nested_mem(1 := GIMPLE_NOP)) t_6 = classify nested_mem t_6
   \<and> classify nested_mem t_6 = Subtraction x_5 int_zero"
proof -
  have s: "\<exists>ty ver d lhs. diff_4 = Ssa_Name ty ver d
         \<and> f1_mem d = GIMPLE_ASSIGN lhs MINUS_EXPR x_2 (Some y_3)
         \<and> TYPE_CODE (TREE_TYPE x_2) = INTEGER_TYPE \<and> \<not> TYPE_UNSIGNED (TREE_TYPE x_2)
         \<and> TYPE_CODE (TREE_TYPE y_3) = INTEGER_TYPE \<and> \<not> TYPE_UNSIGNED (TREE_TYPE y_3)"
    by (simp add: example_defs)
  have n: "(\<forall>ty. x_2 \<noteq> Integer_Cst ty 0)
        \<and> \<not> (\<exists>ty ver d lhs a b. x_2 = Ssa_Name ty ver d
               \<and> f1_mem d = GIMPLE_ASSIGN lhs MINUS_EXPR a (Some b)
               \<and> TYPE_CODE (TREE_TYPE a) = INTEGER_TYPE \<and> \<not> TYPE_UNSIGNED (TREE_TYPE a)
               \<and> TYPE_CODE (TREE_TYPE b) = INTEGER_TYPE \<and> \<not> TYPE_UNSIGNED (TREE_TYPE b))"
    by (simp add: example_defs)
  have u: "(\<forall>ty. udiff_6 \<noteq> Integer_Cst ty 0)
        \<and> \<not> (\<exists>ty ver d lhs a b. udiff_6 = Ssa_Name ty ver d
               \<and> other_mem d = GIMPLE_ASSIGN lhs MINUS_EXPR a (Some b)
               \<and> TYPE_CODE (TREE_TYPE a) = INTEGER_TYPE \<and> \<not> TYPE_UNSIGNED (TREE_TYPE a)
               \<and> TYPE_CODE (TREE_TYPE b) = INTEGER_TYPE \<and> \<not> TYPE_UNSIGNED (TREE_TYPE b))"
    by (simp add: example_defs)
  have f: "(\<forall>ty. fdiff_7 \<noteq> Integer_Cst ty 0)
        \<and> \<not> (\<exists>ty ver d lhs a b. fdiff_7 = Ssa_Name ty ver d
               \<and> other_mem d = GIMPLE_ASSIGN lhs MINUS_EXPR a (Some b)
               \<and> TYPE_CODE (TREE_TYPE a) = INTEGER_TYPE \<and> \<not> TYPE_UNSIGNED (TREE_TYPE a)
               \<and> TYPE_CODE (TREE_TYPE b) = INTEGER_TYPE \<and> \<not> TYPE_UNSIGNED (TREE_TYPE b))"
    by (simp add: example_defs)
  have m: "(\<forall>ty. mixed_8 \<noteq> Integer_Cst ty 0)
        \<and> \<not> (\<exists>ty ver d lhs a b. mixed_8 = Ssa_Name ty ver d
               \<and> other_mem d = GIMPLE_ASSIGN lhs MINUS_EXPR a (Some b)
               \<and> TYPE_CODE (TREE_TYPE a) = INTEGER_TYPE \<and> \<not> TYPE_UNSIGNED (TREE_TYPE a)
               \<and> TYPE_CODE (TREE_TYPE b) = INTEGER_TYPE \<and> \<not> TYPE_UNSIGNED (TREE_TYPE b))"
    by (simp add: example_defs)
  have d: "\<forall>ty ver d. t_6 = Ssa_Name ty ver d \<longrightarrow> (nested_mem(1 := GIMPLE_NOP)) d = nested_mem d"
    by (simp add: example_defs)
  have t: "\<exists>ty ver d lhs. t_6 = Ssa_Name ty ver d
         \<and> nested_mem d = GIMPLE_ASSIGN lhs MINUS_EXPR x_5 (Some int_zero)
         \<and> TYPE_CODE (TREE_TYPE x_5) = INTEGER_TYPE \<and> \<not> TYPE_UNSIGNED (TREE_TYPE x_5)
         \<and> TYPE_CODE (TREE_TYPE int_zero) = INTEGER_TYPE
         \<and> \<not> TYPE_UNSIGNED (TREE_TYPE int_zero)"
    by (simp add: example_defs)
  note c1 = classifier_subtraction [of f1_mem diff_4 x_2 y_3 f1_mem]
  note c2 = classifier_subtraction [of f1_mem x_2 x_2 y_3 f1_mem]
  note c3 = classifier_subtraction [of other_mem udiff_6 ua_2 ub_3 other_mem]
  note c4 = classifier_subtraction [of other_mem fdiff_7 fa_4 fb_5 other_mem]
  note c5 = classifier_subtraction [of other_mem mixed_8 x_2 ub_3 other_mem]
  note c6 = classifier_subtraction [of nested_mem t_6 x_5 int_zero "nested_mem(1 := GIMPLE_NOP)"]
  from s c1 have 1: "classify f1_mem diff_4 = Subtraction x_2 y_3"
    by blast
  from 1 c1 have 2: "prop_integer_zero_or_minus_expr f1_mem diff_4
        = Some (build2 MINUS_EXPR (TREE_TYPE diff_4) x_2 y_3)"
    by blast
  from n c2 have 3: "classify f1_mem x_2 = NoMatch"
    by blast
  from u c3 have 4: "classify other_mem udiff_6 = NoMatch"
    by blast
  from f c4 have 5: "classify other_mem fdiff_7 = NoMatch"
    by blast
  from m c5 have 6: "classify other_mem mixed_8 = NoMatch"
    by blast
  from d c6 have 7: "classify (nested_mem(1 := GIMPLE_NOP)) t_6 = classify nested_mem t_6"
    by blast
  from t c6 have 8: "classify nested_mem t_6 = Subtraction x_5 int_zero"
    by blast
  from 1 2 3 4 5 6 7 8 show ?thesis
    by simp
qed

text \<open>
  C7. The classifier returns \<open>Zero\<close> exactly when the value is the integer constant 0 of
  a signed-integer type (an integer type not flagged unsigned, of any width), and then
  the tree it returns is the value itself; no other value, a non-zero constant among
  them, is \<open>Zero\<close>.
\<close>

theorem classifier_zero:
  "(classify mem v = Zero \<longleftrightarrow>
      (\<exists>ty. v = Integer_Cst ty 0 \<and> TYPE_CODE ty = INTEGER_TYPE \<and> \<not> TYPE_UNSIGNED ty))
   \<and> (classify mem v = Zero \<longleftrightarrow> integer_zerop v)
   \<and> (classify mem v = Zero \<longrightarrow> prop_integer_zero_or_minus_expr mem v = Some v)"
  by (simp add: classify_Zero_iff integer_zerop_iff [symmetric] prop_zero)

theorem classifier_zero_witness:
  "classify f1_mem int_zero = Zero
   \<and> prop_integer_zero_or_minus_expr f1_mem int_zero = Some int_zero
   \<and> classify f1_mem (Integer_Cst (Type_Node INTEGER_TYPE False 64) 0) = Zero
   \<and> classify f1_mem (Integer_Cst int_type 1) \<noteq> Zero
   \<and> classify f1_mem unsigned_zero \<noteq> Zero
   \<and> classify f1_mem (Real_Cst real_type ''0.0'') \<noteq> Zero
   \<and> classify f1_mem diff_4 \<noteq> Zero"
  using classifier_zero [of f1_mem int_zero]
    classifier_zero [of f1_mem "Integer_Cst (Type_Node INTEGER_TYPE False 64) 0"]
    classifier_zero [of f1_mem "Integer_Cst int_type 1"]
    classifier_zero [of f1_mem unsigned_zero]
    classifier_zero [of f1_mem "Real_Cst real_type ''0.0''"]
    classifier_zero [of f1_mem diff_4]
  by (simp add: example_defs)

subsection \<open>The rewrite of one comparison\<close>

text \<open>
  C2. For a comparison whose operator is one of \<open><\<close>, \<open>\<le>\<close>, \<open>>\<close>, \<open>\<ge>\<close>: if the left
  operand classifies as \<open>Subtraction x y\<close> and the right one as \<open>Zero\<close>, the rewritten
  comparison has left operand \<open>x\<close>, right operand \<open>y\<close> and the same operator; if the left
  operand classifies as \<open>Zero\<close> and the right one as \<open>Subtraction x y\<close>, it has left
  operand \<open>y\<close>, right operand \<open>x\<close> and the same operator.
\<close>

theorem rewrite_cases:
  assumes "code \<in> {LT_EXPR, LE_EXPR, GT_EXPR, GE_EXPR}"
  shows "(classify mem l = Subtraction x y \<and> classify mem r = Zero \<longrightarrow>
            optimize_signed_comparison mem (Gcond code l r) = Gcond code x y)
       \<and> (classify mem l = Zero \<and> classify mem r = Subtraction x y \<longrightarrow>
            optimize_signed_comparison mem (Gcond code l r) = Gcond code y x)"
proof -
  from assms have "\<not> (code_less code LT_EXPR \<or> code_less GE_EXPR code)"
    by (simp only: ordered_code_cases)
  then show ?thesis
    by (simp add: optimize_ordered)
qed

theorem rewrite_cases_witness:
  "GT_EXPR \<in> {LT_EXPR, LE_EXPR, GT_EXPR, GE_EXPR}
   \<and> classify f1_mem diff_4 = Subtraction x_2 y_3
   \<and> classify f1_mem int_zero = Zero
   \<and> optimize_signed_comparison f1_mem (Gcond GT_EXPR diff_4 int_zero) = Gcond GT_EXPR x_2 y_3
   \<and> optimize_signed_comparison f1_mem (Gcond GT_EXPR int_zero diff_4) = Gcond GT_EXPR y_3 x_2"
proof -
  have c: "GT_EXPR \<in> {LT_EXPR, LE_EXPR, GT_EXPR, GE_EXPR}" by simp
  have s: "classify f1_mem diff_4 = Subtraction x_2 y_3"
    by (simp add: classify_def prop_integer_zero_or_minus_expr_def is_signed_integer_def
        build2_def example_defs)
  have z: "classify f1_mem int_zero = Zero"
    by (simp add: classify_def prop_integer_zero_or_minus_expr_def example_defs)
  show ?thesis
    using c s z
      rewrite_cases [OF c, of f1_mem diff_4 x_2 y_3 int_zero]
      rewrite_cases [OF c, of f1_mem int_zero x_2 y_3 diff_4]
    by simp
qed

text \<open>
  C4. A comparison whose operator is not one of \<open><\<close>, \<open>\<le>\<close>, \<open>>\<close>, \<open>\<ge>\<close> (equality,
  inequality or any other code) is returned as it is, whatever its operands are.
\<close>

theorem other_codes_unchanged:
  assumes "gimple_cond_code stmt \<notin> {LT_EXPR, LE_EXPR, GT_EXPR, GE_EXPR}"
  shows "optimize_signed_comparison mem stmt = stmt"
proof -
  from assms
  have "code_less (gimple_cond_code stmt) LT_EXPR \<or> code_less GE_EXPR (gimple_cond_code stmt)"
    using ordered_code_cases [of "gimple_cond_code stmt"] by blast
  then show ?thesis
    by (cases stmt) (simp add: optimize_guard)
qed

theorem other_codes_unchanged_witness:
  "gimple_cond_code (Gcond NE_EXPR diff_4 int_zero) \<notin> {LT_EXPR, LE_EXPR, GT_EXPR, GE_EXPR}
   \<and> optimize_signed_comparison f1_mem (Gcond NE_EXPR diff_4 int_zero)
       = Gcond NE_EXPR diff_4 int_zero"
proof -
  have c: "gimple_cond_code (Gcond NE_EXPR diff_4 int_zero)
             \<notin> {LT_EXPR, LE_EXPR, GT_EXPR, GE_EXPR}"
    by simp
  show ?thesis
    using c other_codes_unchanged [OF c, of f1_mem] by simp
qed

text \<open>
  An operand that is written can be the operand it replaces. In \<open>nested_mem\<close> the
  comparison \<^verbatim>\<open>t_6 < 0\<close> with \<^verbatim>\<open>t_6 = x_5 - 0\<close> becomes \<^verbatim>\<open>x_5 < 0\<close>: the left
  operand is another one, the right operand is the same zero as before.
\<close>

theorem one_operand_differs:
  "optimize_signed_comparison nested_mem (Gcond LT_EXPR t_6 int_zero)
     = Gcond LT_EXPR x_5 int_zero
   \<and> gimple_cond_lhs (optimize_signed_comparison nested_mem (Gcond LT_EXPR t_6 int_zero))
       \<noteq> gimple_cond_lhs (Gcond LT_EXPR t_6 int_zero)
   \<and> gimple_cond_rhs (optimize_signed_comparison nested_mem (Gcond LT_EXPR t_6 int_zero))
       = gimple_cond_rhs (Gcond LT_EXPR t_6 int_zero)"
  by (simp add: optimize_signed_comparison_def prop_integer_zero_or_minus_expr_def
      is_signed_integer_def build2_def update_stmt_def code_less_def example_defs)

text \<open>
  C10, amended. The rewrite is all or nothing: the comparison is returned as it is, or
  its two operands are together the two operands of the one subtraction that was
  matched, \<open>x\<close> left and \<open>y\<close> right when the subtraction stood on the left, \<open>y\<close> left
  and \<open>x\<close> right when it stood on the right, with the operator unchanged. No result has
  one operand taken from the subtraction and the other one kept from the comparison,
  unless the operand taken equals the operand kept.
\<close>

theorem all_or_nothing:
  "optimize_signed_comparison mem (Gcond code l r) = Gcond code l r
   \<or> (\<exists>x y. classify mem l = Subtraction x y \<and> classify mem r = Zero
          \<and> optimize_signed_comparison mem (Gcond code l r) = Gcond code x y)
   \<or> (\<exists>x y. classify mem l = Zero \<and> classify mem r = Subtraction x y
          \<and> optimize_signed_comparison mem (Gcond code l r) = Gcond code y x)"
proof (cases "code_less code LT_EXPR \<or> code_less GE_EXPR code")
  case True
  then show ?thesis by (simp add: optimize_guard)
next
  case False
  then show ?thesis
    by (simp add: optimize_ordered split: classification.splits)
qed

theorem all_or_nothing_witness:
  "optimize_signed_comparison f1_mem (Gcond GT_EXPR diff_4 int_zero) = Gcond GT_EXPR x_2 y_3
   \<and> optimize_signed_comparison f1_mem (Gcond GT_EXPR int_zero diff_4) = Gcond GT_EXPR y_3 x_2
   \<and> optimize_signed_comparison f1_mem (Gcond GT_EXPR diff_4 x_2) = Gcond GT_EXPR diff_4 x_2"
proof -
  have a: "optimize_signed_comparison f1_mem (Gcond GT_EXPR diff_4 int_zero)
             \<noteq> Gcond GT_EXPR diff_4 int_zero"
    and b: "optimize_signed_comparison f1_mem (Gcond GT_EXPR int_zero diff_4)
             \<noteq> Gcond GT_EXPR int_zero diff_4"
    by (simp_all add: optimize_signed_comparison_def prop_integer_zero_or_minus_expr_def
        is_signed_integer_def build2_def update_stmt_def code_less_def example_defs)
  have s: "classify f1_mem diff_4 = Subtraction x_2 y_3"
    by (simp add: classify_def prop_integer_zero_or_minus_expr_def is_signed_integer_def
        build2_def example_defs)
  have z: "classify f1_mem int_zero = Zero"
    by (simp add: classify_def prop_integer_zero_or_minus_expr_def example_defs)
  have n: "classify f1_mem x_2 = NoMatch"
    by (simp add: classify_def prop_integer_zero_or_minus_expr_def example_defs)
  show ?thesis
    using a b s z n all_or_nothing [of f1_mem GT_EXPR diff_4 int_zero]
      all_or_nothing [of f1_mem GT_EXPR int_zero diff_4]
      all_or_nothing [of f1_mem GT_EXPR diff_4 x_2]
    by auto
qed

subsection \<open>The rewrite keeps the truth value\<close>

lemma comparison_minus_zero:
  fixes a b :: "'a::len word"
  assumes "\<not> (code_less code LT_EXPR \<or> code_less GE_EXPR code)"
    and "\<not> signed_minus_overflows a b"
  shows "comparison_holds code (a - b) 0 = comparison_holds code a b"
    and "comparison_holds code 0 (a - b) = comparison_holds code b a"
proof -
  have d: "sint (a - b) = sint a - sint b"
    using assms(2) by (rule sint_minus_no_overflow)
  from assms(1) have c: "code \<in> {LT_EXPR, LE_EXPR, GT_EXPR, GE_EXPR}"
    by (simp only: ordered_code_cases)
  from c d show "comparison_holds code (a - b) 0 = comparison_holds code a b"
    by auto
  from c d show "comparison_holds code 0 (a - b) = comparison_holds code b a"
    by auto
qed

lemma eval_zero:
  "integer_zerop v \<Longrightarrow> eval_operand env v = Some 0"
  by (cases v) simp_all

lemma minus_defined_eval:
  fixes env :: "nat \<Rightarrow> 'a::len word"
  assumes "minus_defined env mem (Ssa_Name ty ver d)"
    and "mem d = GIMPLE_ASSIGN lhs MINUS_EXPR x (Some y)"
  obtains a b where "eval_operand env x = Some a" "eval_operand env y = Some b"
    "env ver = a - b" "\<not> signed_minus_overflows a b"
  using assms by (auto simp: minus_defined_def split: option.splits)

text \<open>
  The rewrite keeps the truth value of the conditional branch in every environment that
  agrees with the definitions of its two operands.
\<close>

lemma optimize_preserves_truth:
  fixes env :: "nat \<Rightarrow> 'a::len word"
  assumes l: "minus_defined env mem (gimple_cond_lhs stmt)"
    and r: "minus_defined env mem (gimple_cond_rhs stmt)"
  shows "eval_gcond env (optimize_signed_comparison mem stmt) = eval_gcond env stmt"
proof (cases stmt)
  case (Gcond code lhs rhs)
  show ?thesis
  proof (cases "code_less code LT_EXPR \<or> code_less GE_EXPR code")
    case True
    then show ?thesis by (simp add: Gcond optimize_guard)
  next
    case False
    note ordered = False
    show ?thesis
    proof (cases "classify mem lhs")
      case Zero
      then have lz: "eval_operand env lhs = Some 0"
        by (simp add: classify_Zero_iff eval_zero)
      show ?thesis
      proof (cases "classify mem rhs")
        case (Subtraction x y)
        then obtain ty ver d lhs' where
          v: "rhs = Ssa_Name ty ver d" "mem d = GIMPLE_ASSIGN lhs' MINUS_EXPR x (Some y)"
          unfolding classify_Subtraction_iff by blast
        from r obtain a b where
          e: "eval_operand env x = Some a" "eval_operand env y = Some b"
            "env ver = a - b" "\<not> signed_minus_overflows a b"
          using v by (auto simp: Gcond elim: minus_defined_eval)
        from ordered Zero Subtraction
        have "optimize_signed_comparison mem stmt = Gcond code y x"
          by (simp add: Gcond optimize_ordered)
        then show ?thesis
          using e lz v(1) comparison_minus_zero(2) [OF ordered e(4)]
          by (simp add: Gcond eval_gcond_def)
      qed (simp_all add: Gcond optimize_ordered ordered Zero)
    next
      case (Subtraction x y)
      then obtain ty ver d lhs' where
        v: "lhs = Ssa_Name ty ver d" "mem d = GIMPLE_ASSIGN lhs' MINUS_EXPR x (Some y)"
        unfolding classify_Subtraction_iff by blast
      from l obtain a b where
        e: "eval_operand env x = Some a" "eval_operand env y = Some b"
          "env ver = a - b" "\<not> signed_minus_overflows a b"
        using v by (auto simp: Gcond elim: minus_defined_eval)
      show ?thesis
      proof (cases "classify mem rhs")
        case Zero
        then have rz: "eval_operand env rhs = Some 0"
          by (simp add: classify_Zero_iff eval_zero)
        from ordered Zero Subtraction
        have "optimize_signed_comparison mem stmt = Gcond code x y"
          by (simp add: Gcond optimize_ordered)
        then show ?thesis
          using e rz v(1) comparison_minus_zero(1) [OF ordered e(4)]
          by (simp add: Gcond eval_gcond_def)
      qed (simp_all add: Gcond optimize_ordered ordered Subtraction)
    next
      case NoMatch
      with ordered show ?thesis
        by (simp add: Gcond optimize_ordered)
    qed
  qed
qed

text \<open>
  C1. For signed integers \<open>x\<close>, \<open>y\<close> of any width whose subtraction does not
  overflow, and every operator that passes the code-range check of
  \<^verbatim>\<open>optimize_signed_comparison\<close> (\<open><\<close>, \<open>\<le>\<close>, \<open>>\<close>, \<open>\<ge>\<close>), the comparison
  \<open>(x - y) OP 0\<close> has the truth value of \<open>x OP y\<close>, and \<open>0 OP (x - y)\<close> has the
  truth value of \<open>y OP x\<close>. So the comparison that \<^verbatim>\<open>optimize_signed_comparison\<close>
  returns has the truth value of the comparison it was given, in every environment in
  which an operand defined by a subtraction has the difference as its value and that
  subtraction did not overflow.
\<close>

theorem signed_comparison_identity:
  fixes x y :: "'a::len word" and env :: "nat \<Rightarrow> 'a word"
  shows "(\<not> (code_less code LT_EXPR \<or> code_less GE_EXPR code)
            \<and> \<not> signed_minus_overflows x y
          \<longrightarrow> comparison_holds code (x - y) 0 = comparison_holds code x y
              \<and> comparison_holds code 0 (x - y) = comparison_holds code y x)
       \<and> (minus_defined env mem (gimple_cond_lhs stmt)
            \<and> minus_defined env mem (gimple_cond_rhs stmt)
          \<longrightarrow> eval_gcond env (optimize_signed_comparison mem stmt) = eval_gcond env stmt)"
proof (intro conjI impI)
  assume a: "\<not> (code_less code LT_EXPR \<or> code_less GE_EXPR code)
               \<and> \<not> signed_minus_overflows x y"
  from a show "comparison_holds code (x - y) 0 = comparison_holds code x y"
    by (simp add: comparison_minus_zero(1))
  from a show "comparison_holds code 0 (x - y) = comparison_holds code y x"
    by (simp add: comparison_minus_zero(2))
next
  assume "minus_defined env mem (gimple_cond_lhs stmt)
            \<and> minus_defined env mem (gimple_cond_rhs stmt)"
  then show "eval_gcond env (optimize_signed_comparison mem stmt) = eval_gcond env stmt"
    by (simp add: optimize_preserves_truth)
qed

text \<open>
  On \<^verbatim>\<open>f1\<close> with \<open>x = 7\<close> and \<open>y = 5\<close>: \<^verbatim>\<open>diff_4 > 0\<close> is rewritten to
  \<^verbatim>\<open>x_2 > y_3\<close>, and both hold.
\<close>

theorem signed_comparison_identity_witness:
  "\<not> (code_less GT_EXPR LT_EXPR \<or> code_less GE_EXPR GT_EXPR)
   \<and> \<not> signed_minus_overflows (7 :: 32 word) 5
   \<and> comparison_holds GT_EXPR ((7 :: 32 word) - 5) 0 = comparison_holds GT_EXPR (7 :: 32 word) 5
   \<and> comparison_holds GT_EXPR 0 ((7 :: 32 word) - 5) = comparison_holds GT_EXPR (5 :: 32 word) 7
   \<and> minus_defined f1_env f1_mem diff_4
   \<and> minus_defined f1_env f1_mem int_zero
   \<and> optimize_signed_comparison f1_mem (Gcond GT_EXPR diff_4 int_zero) = Gcond GT_EXPR x_2 y_3
   \<and> eval_gcond f1_env (Gcond GT_EXPR diff_4 int_zero) = Some True
   \<and> eval_gcond f1_env (Gcond GT_EXPR x_2 y_3) = Some True
   \<and> eval_gcond f1_env (optimize_signed_comparison f1_mem (Gcond GT_EXPR diff_4 int_zero))
       = eval_gcond f1_env (Gcond GT_EXPR diff_4 int_zero)"
proof -
  have g: "\<not> (code_less GT_EXPR LT_EXPR \<or> code_less GE_EXPR GT_EXPR)"
    by (simp add: code_less_def)
  have n: "\<not> signed_minus_overflows (7 :: 32 word) 5"
    by (simp add: signed_minus_overflows_def)
  have l: "minus_defined f1_env f1_mem diff_4"
    by (simp add: minus_defined_def f1_env_def signed_minus_overflows_def example_defs)
  have r: "minus_defined f1_env f1_mem int_zero"
    by (simp add: minus_defined_def example_defs)
  have o: "optimize_signed_comparison f1_mem (Gcond GT_EXPR diff_4 int_zero)
             = Gcond GT_EXPR x_2 y_3"
    by (simp add: optimize_signed_comparison_def prop_integer_zero_or_minus_expr_def
        is_signed_integer_def build2_def update_stmt_def code_less_def example_defs)
  have e1: "eval_gcond f1_env (Gcond GT_EXPR diff_4 int_zero) = Some True"
    by (simp add: eval_gcond_def f1_env_def example_defs)
  have e2: "eval_gcond f1_env (Gcond GT_EXPR x_2 y_3) = Some True"
    by (simp add: eval_gcond_def f1_env_def example_defs)
  note t1 = signed_comparison_identity [of GT_EXPR "7 :: 32 word" 5 f1_env f1_mem
      "Gcond GT_EXPR diff_4 int_zero"]
  from g n t1
  have i: "comparison_holds GT_EXPR ((7 :: 32 word) - 5) 0
             = comparison_holds GT_EXPR (7 :: 32 word) 5
         \<and> comparison_holds GT_EXPR 0 ((7 :: 32 word) - 5)
             = comparison_holds GT_EXPR (5 :: 32 word) 7"
    by blast
  from l r t1
  have p: "eval_gcond f1_env (optimize_signed_comparison f1_mem (Gcond GT_EXPR diff_4 int_zero))
             = eval_gcond f1_env (Gcond GT_EXPR diff_4 int_zero)"
    by simp
  from g n i l r o e1 e2 p show ?thesis
    by blast
qed

text \<open>
  With wrap-around the identity fails: \<^verbatim>\<open>INT_MAX - INT_MIN\<close> wraps to \<open>-1\<close>, which is
  negative, while \<^verbatim>\<open>INT_MAX < INT_MIN\<close> is false.
\<close>

lemma wrapping_subtraction_differs:
  "signed_minus_overflows (2147483647 :: 32 word) (- 2147483648)
   \<and> comparison_holds LT_EXPR ((2147483647 :: 32 word) - (- 2147483648)) 0
   \<and> \<not> comparison_holds LT_EXPR (2147483647 :: 32 word) (- 2147483648)"
  by (simp add: signed_minus_overflows_def)

subsection \<open>The gate\<close>

text \<open>
  C5. The gate holds exactly when \<^verbatim>\<open>flag_tree_cmp\<close> is set and \<^verbatim>\<open>flag_wrapv\<close> is not;
  so with \<^verbatim>\<open>-fwrapv\<close> the gate is false and the pass leaves every function body as it
  is.
\<close>

theorem gate_correct:
  "(gate opts \<longleftrightarrow> flag_tree_cmp opts \<noteq> 0 \<and> flag_wrapv opts = 0)
   \<and> (flag_wrapv opts \<noteq> 0 \<longrightarrow> \<not> gate opts \<and> run_pass opts fn = fn)"
  by (simp add: gate_def run_pass_def)

theorem gate_correct_witness:
  "flag_wrapv \<lparr>flag_tree_cmp = 1, flag_wrapv = 1\<rparr> \<noteq> 0
   \<and> \<not> gate \<lparr>flag_tree_cmp = 1, flag_wrapv = 1\<rparr>
   \<and> run_pass \<lparr>flag_tree_cmp = 1, flag_wrapv = 1\<rparr> f1 = f1
   \<and> gate \<lparr>flag_tree_cmp = 1, flag_wrapv = 0\<rparr>"
proof -
  have h: "flag_wrapv \<lparr>flag_tree_cmp = 1, flag_wrapv = 1\<rparr> \<noteq> 0"
    by simp
  show ?thesis
    using h gate_correct [of "\<lparr>flag_tree_cmp = 1, flag_wrapv = 1\<rparr>" f1]
      gate_correct [of "\<lparr>flag_tree_cmp = 1, flag_wrapv = 0\<rparr>" f1]
    by simp
qed

subsection \<open>The traversal\<close>

lemmas f1_defs = f1_def visited_stmts_def function_conds_def gsi_after_labels_def
  traverse_in_order_def

lemma f1_conds: "function_conds f1 = [4, 2]"
  by (simp add: f1_defs example_defs)

lemma nested_visited: "visited_stmts nested = [1, 2, 3]"
  by (simp add: visited_stmts_def gsi_after_labels_def nested_def example_defs)

lemma count_list_filter:
  "count_list (filter P xs) q = (if P q then count_list xs q else 0)"
  by (induction xs) auto

lemma optimize_code:
  "gimple_cond_code (optimize_signed_comparison mem stmt) = gimple_cond_code stmt"
proof (cases stmt)
  case (Gcond code l r)
  show ?thesis
  proof (cases "code_less code LT_EXPR \<or> code_less GE_EXPR code")
    case True
    then show ?thesis by (simp add: Gcond optimize_guard)
  next
    case False
    then show ?thesis
      by (simp add: Gcond optimize_ordered split: classification.splits)
  qed
qed

lemma rewrite_gimple_lhs [simp]: "gimple_get_lhs (rewrite_gimple m g) = gimple_get_lhs g"
  by (cases g) (simp_all add: rewrite_gimple_def)

lemma funpow_rewrite_lhs [simp]:
  "gimple_get_lhs ((rewrite_gimple m ^^ n) g) = gimple_get_lhs g"
  by (induction n) simp_all

lemma funpow_rewrite_code:
  "\<exists>l r. (rewrite_gimple m ^^ n) (GIMPLE_COND stmt)
           = GIMPLE_COND (Gcond (gimple_cond_code stmt) l r)"
proof (induction n)
  case 0
  show ?case by (cases stmt) simp
next
  case (Suc n)
  then obtain l r where
    e: "(rewrite_gimple m ^^ n) (GIMPLE_COND stmt) = GIMPLE_COND (Gcond (gimple_cond_code stmt) l r)"
    by blast
  let ?s = "optimize_signed_comparison m (Gcond (gimple_cond_code stmt) l r)"
  have "gimple_cond_code ?s = gimple_cond_code stmt"
    by (simp add: optimize_code)
  then have s: "?s = Gcond (gimple_cond_code stmt) (gimple_cond_lhs ?s) (gimple_cond_rhs ?s)"
    by (cases ?s) simp
  have "(rewrite_gimple m ^^ Suc n) (GIMPLE_COND stmt)
          = rewrite_gimple m (GIMPLE_COND (Gcond (gimple_cond_code stmt) l r))"
    by (simp add: e)
  also have "\<dots> = GIMPLE_COND ?s"
    by (simp add: rewrite_gimple_def)
  finally show ?case
    using s by metis
qed

lemma traverse_frame:
  "(\<forall>p. \<not> is_gimple_cond (stmt_mem fn p) \<longrightarrow>
        stmt_mem (traverse_in_order ps fn) p = stmt_mem fn p)
   \<and> (\<forall>p stmt. stmt_mem fn p = GIMPLE_COND stmt \<longrightarrow>
        (\<exists>l r. stmt_mem (traverse_in_order ps fn) p
                  = GIMPLE_COND (Gcond (gimple_cond_code stmt) l r)))
   \<and> (\<forall>p. gimple_get_lhs (stmt_mem (traverse_in_order ps fn) p)
            = gimple_get_lhs (stmt_mem fn p))
   \<and> bb_stmts (traverse_in_order ps fn) = bb_stmts fn
   \<and> bb_succs (traverse_in_order ps fn) = bb_succs fn
   \<and> dom_info (traverse_in_order ps fn) = dom_info fn"
  by (simp add: traverse_in_order_def cmp_stmt_loop_at funpow_rewrite_other funpow_rewrite_code)

lemma ssa_form_cong:
  assumes "\<forall>p. gimple_get_lhs (stmt_mem fn' p) = gimple_get_lhs (stmt_mem fn p)"
    and "bb_stmts fn' = bb_stmts fn" and "dom_info fn' = dom_info fn"
  shows "ssa_form fn' = ssa_form fn"
  using assms by (simp add: ssa_form_def function_stmts_def)

lemma classify_not_zero: "\<not> integer_zerop v \<Longrightarrow> classify mem v \<noteq> Zero"
  by (simp add: classify_Zero_iff)

lemma optimize_no_zero:
  assumes "\<not> integer_zerop l" and "\<not> integer_zerop r"
  shows "optimize_signed_comparison mem (Gcond code l r) = Gcond code l r"
proof (cases "code_less code LT_EXPR \<or> code_less GE_EXPR code")
  case True
  then show ?thesis by (simp add: optimize_guard)
next
  case False
  with classify_not_zero [OF assms(1), of mem] classify_not_zero [OF assms(2), of mem]
  show ?thesis
    by (simp add: optimize_ordered split: classification.splits)
qed

lemma optimize_twice:
  assumes "\<forall>x y. classify mem (gimple_cond_lhs stmt) = Subtraction x y
                 \<or> classify mem (gimple_cond_rhs stmt) = Subtraction x y
             \<longrightarrow> \<not> integer_zerop x \<and> \<not> integer_zerop y"
  shows "optimize_signed_comparison mem (optimize_signed_comparison mem stmt)
           = optimize_signed_comparison mem stmt"
proof (cases stmt)
  case (Gcond code l r)
  show ?thesis
  proof (cases "code_less code LT_EXPR \<or> code_less GE_EXPR code")
    case True
    then show ?thesis by (simp add: Gcond optimize_guard)
  next
    case False
    from assms have nz:
      "\<And>x y. classify mem l = Subtraction x y \<Longrightarrow> \<not> integer_zerop x \<and> \<not> integer_zerop y"
      "\<And>x y. classify mem r = Subtraction x y \<Longrightarrow> \<not> integer_zerop x \<and> \<not> integer_zerop y"
      by (simp_all add: Gcond)
    show ?thesis
    proof (cases "classify mem l")
      case Zero
      show ?thesis
      proof (cases "classify mem r")
        case (Subtraction x y)
        with Zero False
        have "optimize_signed_comparison mem (Gcond code l r) = Gcond code y x"
          by (simp add: optimize_ordered)
        with nz(2) [OF Subtraction] show ?thesis
          by (simp add: Gcond optimize_no_zero)
      qed (simp_all add: Gcond optimize_ordered False Zero)
    next
      case (Subtraction x y)
      show ?thesis
      proof (cases "classify mem r")
        case Zero
        with Subtraction False
        have "optimize_signed_comparison mem (Gcond code l r) = Gcond code x y"
          by (simp add: optimize_ordered)
        with nz(1) [OF Subtraction] show ?thesis
          by (simp add: Gcond optimize_no_zero)
      qed (simp_all add: Gcond optimize_ordered False Subtraction)
    next
      case NoMatch
      with False show ?thesis
        by (simp add: Gcond optimize_ordered)
    qed
  qed
qed

lemma funpow_idem:
  assumes "f (f x) = f x"
  shows "(f ^^ n) ((f ^^ n) x) = (f ^^ n) x"
proof -
  have a: "(f ^^ k) (f x) = f x" for k
    by (induction k) (simp_all add: assms)
  have b: "(f ^^ k) x = (if k = 0 then x else f x)" for k
    by (cases k) (simp_all add: funpow_swap1 a)
  show ?thesis
    by (simp add: b a)
qed

lemma visited_stmts_execute: "visited_stmts (execute fn) = visited_stmts fn"
proof -
  have "gsi_after_labels (execute fn) = gsi_after_labels fn"
    unfolding execute_eq traverse_in_order_def
    by (rule same_defs_after_labels_fun) (rule same_defs_loop)
  then show ?thesis
    by (simp add: visited_stmts_def execute_eq traverse_in_order_def)
qed

lemma rewrite_gimple_execute:
  "rewrite_gimple (stmt_mem (execute fn)) = rewrite_gimple (stmt_mem fn)"
  unfolding execute_eq traverse_in_order_def
  by (simp add: same_defs_rewrite [OF same_defs_loop])

lemma stmt_mem_execute_twice:
  "stmt_mem (execute (execute fn)) q
     = (rewrite_gimple (stmt_mem fn) ^^ count_list (visited_stmts fn) q)
         ((rewrite_gimple (stmt_mem fn) ^^ count_list (visited_stmts fn) q) (stmt_mem fn q))"
  by (simp add: stmt_mem_execute [of "execute fn"] visited_stmts_execute rewrite_gimple_execute
      stmt_mem_execute [of fn])

lemma execute_twice_eq:
  "execute (execute fn) = fn\<lparr>stmt_mem := stmt_mem (execute (execute fn))\<rparr>"
  by (simp add: execute_eq [of "execute fn"]) (simp add: execute_eq traverse_in_order_def)

text \<open>
  C8. Running the pass (the whole walk, or the hook on one block) changes nothing but the
  operand pairs of conditional branches: a statement that is not a conditional branch,
  the subtraction whose operands were propagated among them, is the same afterwards; a
  conditional branch is still a conditional branch with the same code; every statement
  defines what it defined before, so the function is in SSA form afterwards exactly when
  it was before; the statement sequences of the blocks, the successor edges and the
  dominator tree are untouched. The classifier is a function of the memory and the
  value, and returns a tree only.
\<close>

theorem pass_frame:
  assumes "fn' = execute fn \<or> fn' = after_dom_children fn bb"
  shows "(\<forall>p. \<not> is_gimple_cond (stmt_mem fn p) \<longrightarrow> stmt_mem fn' p = stmt_mem fn p)
   \<and> (\<forall>p stmt. stmt_mem fn p = GIMPLE_COND stmt \<longrightarrow>
        (\<exists>l r. stmt_mem fn' p = GIMPLE_COND (Gcond (gimple_cond_code stmt) l r)))
   \<and> (\<forall>p. gimple_get_lhs (stmt_mem fn' p) = gimple_get_lhs (stmt_mem fn p))
   \<and> bb_stmts fn' = bb_stmts fn
   \<and> bb_succs fn' = bb_succs fn
   \<and> dom_info fn' = dom_info fn
   \<and> (ssa_form fn' \<longleftrightarrow> ssa_form fn)"
proof -
  from assms obtain ps where fn': "fn' = traverse_in_order ps fn"
    using execute_eq after_dom_children_eq by metis
  note fr = traverse_frame [of fn ps, folded fn']
  from fr have "ssa_form fn' = ssa_form fn"
    by (intro ssa_form_cong) simp_all
  with fr show ?thesis by simp
qed

theorem pass_frame_witness:
  "stmt_mem (execute f1) 1 = GIMPLE_ASSIGN diff_4 MINUS_EXPR x_2 (Some y_3)
   \<and> (\<exists>l r. stmt_mem (execute f1) 2 = GIMPLE_COND (Gcond GT_EXPR l r))
   \<and> bb_stmts (execute f1) = bb_stmts f1
   \<and> bb_succs (execute f1) = bb_succs f1
   \<and> dom_info (execute f1) = dom_info f1
   \<and> ssa_form f1 \<and> ssa_form (execute f1)"
proof -
  have a: "\<not> is_gimple_cond (stmt_mem f1 1)"
    and b: "stmt_mem f1 1 = GIMPLE_ASSIGN diff_4 MINUS_EXPR x_2 (Some y_3)"
    and c: "stmt_mem f1 2 = GIMPLE_COND (Gcond GT_EXPR diff_4 int_zero)"
    by (simp_all add: f1_def f1_mem_def)
  have s: "ssa_form f1"
    by (simp add: ssa_form_def function_stmts_def f1_def example_defs)
  have h: "execute f1 = execute f1 \<or> execute f1 = after_dom_children f1 2"
    by simp
  note fr = pass_frame [OF h]
  from fr a have 1: "stmt_mem (execute f1) 1 = stmt_mem f1 1"
    by blast
  from fr c
  have "\<exists>l r. stmt_mem (execute f1) 2
           = GIMPLE_COND (Gcond (gimple_cond_code (Gcond GT_EXPR diff_4 int_zero)) l r)"
    by blast
  then have 2: "\<exists>l r. stmt_mem (execute f1) 2 = GIMPLE_COND (Gcond GT_EXPR l r)"
    by simp
  from fr s have 3: "ssa_form (execute f1)"
    by blast
  from 1 2 3 b s fr show ?thesis
    by simp
qed

text \<open>
  C9. The walk over the dominator tree gives the same function body as a traversal
  that hands the conditional branches of the function to the rewrite in any other order,
  each as often as the walk does (once, when no statement is listed twice).
\<close>

theorem traversal_order_independent:
  assumes "mset order = mset (function_conds fn)"
  shows "traverse_in_order order fn = execute fn"
proof -
  let ?m = "stmt_mem fn"
  have c: "count_list order q = count_list (function_conds fn) q" for q
    using assms by (metis count_mset)
  have "cmp_stmt_loop order ?m q = cmp_stmt_loop (visited_stmts fn) ?m q" for q
  proof (cases "is_gimple_cond (?m q)")
    case True
    then have "count_list order q = count_list (visited_stmts fn) q"
      by (simp add: c function_conds_def count_list_filter)
    then show ?thesis by (simp add: cmp_stmt_loop_at)
  next
    case False
    then show ?thesis by (simp add: cmp_stmt_loop_at funpow_rewrite_other)
  qed
  then have "cmp_stmt_loop order ?m = cmp_stmt_loop (visited_stmts fn) ?m"
    by (rule ext)
  then show ?thesis
    by (simp add: execute_eq traverse_in_order_def)
qed

theorem traversal_order_independent_witness:
  "mset [2, 4] = mset (function_conds f1) \<and> traverse_in_order [2, 4] f1 = execute f1"
proof -
  have h: "mset [2, 4] = mset (function_conds f1)"
    by (simp add: f1_conds)
  show ?thesis
    using h traversal_order_independent [OF h] by simp
qed

text \<open>
  A rewritten comparison can match again: in \<open>nested\<close> the first run turns
  \<^verbatim>\<open>t_6 < 0\<close> into \<^verbatim>\<open>x_5 < 0\<close>, and \<^verbatim>\<open>x_5\<close> is itself a signed subtraction
  compared with the integer zero that was propagated, so the second run turns it into
  \<^verbatim>\<open>x_2 < y_3\<close>.
\<close>

theorem nested_rewritten_twice:
  "stmt_mem (execute nested) 3 = GIMPLE_COND (Gcond LT_EXPR x_5 int_zero)
   \<and> stmt_mem (execute (execute nested)) 3 = GIMPLE_COND (Gcond LT_EXPR x_2 y_3)
   \<and> execute (execute nested) \<noteq> execute nested
   \<and> optimize_signed_comparison nested_mem
        (optimize_signed_comparison nested_mem (Gcond LT_EXPR t_6 int_zero))
       \<noteq> optimize_signed_comparison nested_mem (Gcond LT_EXPR t_6 int_zero)"
proof -
  have m: "stmt_mem nested = nested_mem"
    by (simp add: nested_def)
  have a: "optimize_signed_comparison nested_mem (Gcond LT_EXPR t_6 int_zero)
             = Gcond LT_EXPR x_5 int_zero"
    by (simp add: optimize_signed_comparison_def prop_integer_zero_or_minus_expr_def
        is_signed_integer_def build2_def update_stmt_def code_less_def example_defs)
  have b: "optimize_signed_comparison nested_mem (Gcond LT_EXPR x_5 int_zero)
             = Gcond LT_EXPR x_2 y_3"
    by (simp add: optimize_signed_comparison_def prop_integer_zero_or_minus_expr_def
        is_signed_integer_def build2_def update_stmt_def code_less_def example_defs)
  have c: "nested_mem 3 = GIMPLE_COND (Gcond LT_EXPR t_6 int_zero)"
    by (simp add: nested_mem_def)
  have 1: "stmt_mem (execute nested) 3 = GIMPLE_COND (Gcond LT_EXPR x_5 int_zero)"
    by (simp add: stmt_mem_execute nested_visited m c rewrite_gimple_def a)
  have 2: "stmt_mem (execute (execute nested)) 3 = GIMPLE_COND (Gcond LT_EXPR x_2 y_3)"
    by (simp add: stmt_mem_execute_twice nested_visited m c rewrite_gimple_def a b)
  have d: "x_5 \<noteq> x_2"
    by (simp add: example_defs)
  from 1 2 d have 3: "execute (execute nested) \<noteq> execute nested"
    by auto
  from 1 2 3 a b d show ?thesis
    by simp
qed

text \<open>
  C6, amended. When no subtraction that an operand of the comparison classifies as has an
  integer zero among its two operands, a second application of the rewrite to the
  rewritten comparison is a no-op; and when this holds of every conditional branch of the
  function, running the pass twice gives the same function body as running it once.
\<close>

theorem rewrite_twice:
  "((\<forall>x y. classify mem (gimple_cond_lhs stmt) = Subtraction x y
             \<or> classify mem (gimple_cond_rhs stmt) = Subtraction x y
           \<longrightarrow> \<not> integer_zerop x \<and> \<not> integer_zerop y)
     \<longrightarrow> optimize_signed_comparison mem (optimize_signed_comparison mem stmt)
           = optimize_signed_comparison mem stmt)
   \<and> ((\<forall>p \<in> set (function_conds fn). \<forall>c x y. stmt_mem fn p = GIMPLE_COND c
           \<and> (classify (stmt_mem fn) (gimple_cond_lhs c) = Subtraction x y
                \<or> classify (stmt_mem fn) (gimple_cond_rhs c) = Subtraction x y)
           \<longrightarrow> \<not> integer_zerop x \<and> \<not> integer_zerop y)
     \<longrightarrow> execute (execute fn) = execute fn)"
proof (intro conjI impI)
  assume "\<forall>x y. classify mem (gimple_cond_lhs stmt) = Subtraction x y
             \<or> classify mem (gimple_cond_rhs stmt) = Subtraction x y
           \<longrightarrow> \<not> integer_zerop x \<and> \<not> integer_zerop y"
  then show "optimize_signed_comparison mem (optimize_signed_comparison mem stmt)
           = optimize_signed_comparison mem stmt"
    by (rule optimize_twice)
next
  let ?m = "stmt_mem fn"
  let ?rw = "rewrite_gimple ?m"
  assume h: "\<forall>p \<in> set (function_conds fn). \<forall>c x y. stmt_mem fn p = GIMPLE_COND c
           \<and> (classify ?m (gimple_cond_lhs c) = Subtraction x y
                \<or> classify ?m (gimple_cond_rhs c) = Subtraction x y)
           \<longrightarrow> \<not> integer_zerop x \<and> \<not> integer_zerop y"
  have "stmt_mem (execute (execute fn)) q = stmt_mem (execute fn) q" for q
  proof (cases "q \<in> set (function_conds fn)")
    case True
    then obtain c where c: "?m q = GIMPLE_COND c"
      by (auto simp: function_conds_def is_gimple_cond_iff)
    with True h have "\<forall>x y. classify ?m (gimple_cond_lhs c) = Subtraction x y
             \<or> classify ?m (gimple_cond_rhs c) = Subtraction x y
           \<longrightarrow> \<not> integer_zerop x \<and> \<not> integer_zerop y"
      by blast
    then have "optimize_signed_comparison ?m (optimize_signed_comparison ?m c)
           = optimize_signed_comparison ?m c"
      by (rule optimize_twice)
    then have "?rw (?rw (?m q)) = ?rw (?m q)"
      by (simp add: c rewrite_gimple_def)
    then have "(?rw ^^ count_list (visited_stmts fn) q)
                 ((?rw ^^ count_list (visited_stmts fn) q) (?m q))
               = (?rw ^^ count_list (visited_stmts fn) q) (?m q)"
      by (rule funpow_idem)
    then show ?thesis
      by (simp only: stmt_mem_execute_twice stmt_mem_execute [of fn])
  next
    case False
    then have "count_list (visited_stmts fn) q = 0 \<or> \<not> is_gimple_cond (?m q)"
      by (auto simp: function_conds_def count_list_0_iff)
    then have "(?rw ^^ count_list (visited_stmts fn) q)
                 ((?rw ^^ count_list (visited_stmts fn) q) (?m q))
               = (?rw ^^ count_list (visited_stmts fn) q) (?m q)"
      by (auto simp: funpow_rewrite_other)
    then show ?thesis
      by (simp only: stmt_mem_execute_twice stmt_mem_execute [of fn])
  qed
  then have "stmt_mem (execute (execute fn)) = stmt_mem (execute fn)"
    by (rule ext)
  then have "execute (execute fn) = fn\<lparr>stmt_mem := stmt_mem (execute fn)\<rparr>"
    using execute_twice_eq [of fn] by simp
  also have "\<dots> = execute fn"
    by (simp add: execute_eq traverse_in_order_def)
  finally show "execute (execute fn) = execute fn" .
qed

theorem rewrite_twice_witness:
  "optimize_signed_comparison f1_mem (optimize_signed_comparison f1_mem (Gcond GT_EXPR diff_4 int_zero))
     = optimize_signed_comparison f1_mem (Gcond GT_EXPR diff_4 int_zero)
   \<and> optimize_signed_comparison f1_mem (Gcond GT_EXPR diff_4 int_zero) = Gcond GT_EXPR x_2 y_3
   \<and> execute (execute f1) = execute f1
   \<and> stmt_mem (execute f1) 2 = GIMPLE_COND (Gcond GT_EXPR x_2 y_3)"
proof -
  have z: "\<not> integer_zerop x_2 \<and> \<not> integer_zerop y_3"
    by (simp add: example_defs)
  have s: "classify f1_mem diff_4 = Subtraction x_2 y_3"
    by (simp add: classify_def prop_integer_zero_or_minus_expr_def is_signed_integer_def
        build2_def example_defs)
  have n: "classify f1_mem int_zero = Zero"
    by (simp add: classify_def prop_integer_zero_or_minus_expr_def example_defs)
  have h1: "\<forall>x y. classify f1_mem (gimple_cond_lhs (Gcond GT_EXPR diff_4 int_zero)) = Subtraction x y
             \<or> classify f1_mem (gimple_cond_rhs (Gcond GT_EXPR diff_4 int_zero)) = Subtraction x y
           \<longrightarrow> \<not> integer_zerop x \<and> \<not> integer_zerop y"
    using z by (simp add: s n)
  note fc = f1_conds
  have m: "stmt_mem f1 = f1_mem"
    by (simp add: f1_def)
  have h2: "\<forall>p \<in> set (function_conds f1). \<forall>c x y. stmt_mem f1 p = GIMPLE_COND c
           \<and> (classify (stmt_mem f1) (gimple_cond_lhs c) = Subtraction x y
                \<or> classify (stmt_mem f1) (gimple_cond_rhs c) = Subtraction x y)
           \<longrightarrow> \<not> integer_zerop x \<and> \<not> integer_zerop y"
    using z s n by (auto simp: fc m f1_mem_def)
  have o: "optimize_signed_comparison f1_mem (Gcond GT_EXPR diff_4 int_zero) = Gcond GT_EXPR x_2 y_3"
    by (simp add: optimize_signed_comparison_def prop_integer_zero_or_minus_expr_def
        is_signed_integer_def build2_def update_stmt_def code_less_def example_defs)
  have vis: "visited_stmts f1 = [3, 5, 7, 4, 1, 2]"
    by (simp add: f1_defs example_defs)
  have c: "f1_mem 2 = GIMPLE_COND (Gcond GT_EXPR diff_4 int_zero)"
    by (simp add: f1_mem_def)
  have e: "stmt_mem (execute f1) 2 = GIMPLE_COND (Gcond GT_EXPR x_2 y_3)"
    by (simp add: stmt_mem_execute vis m c rewrite_gimple_def o)
  show ?thesis
    using h1 h2 o e rewrite_twice [of f1_mem "Gcond GT_EXPR diff_4 int_zero" f1]
    by blast
qed

end
